theory Spec2Isabelle
  imports Complex_Main "HOL-Library.Word"
begin

section \<open>Numbers and rasters\<close>

text \<open>
  The program is TypeScript. A value of type \<open>number\<close> is modelled as a real: sums,
  products, quotients, \<open>Math.min\<close>, \<open>Math.max\<close>, \<open>Math.abs\<close> and
  \<open>Math.floor\<close> are the exact operations, and the rounding of IEEE doubles and of
  \<open>Float32Array\<close> cells is left out. Counters, sizes and array indices are \<open>nat\<close> or
  \<open>int\<close>. A \<open>Float32Array\<close> is a \<open>real list\<close>.

  \<open>ImageData.data\<close> is a \<open>Uint8ClampedArray\<close>: a list of bytes, four per pixel (R, G, B, A).
\<close>

record ImageData =
  data :: "8 word list"

text \<open>
  Reading a byte array past its end yields \<open>undefined\<close> in JavaScript, and every
  number computed from it is \<open>NaN\<close>. The decoding loops read the bytes \<open>4*i\<close>,
  \<open>4*i+1\<close> and \<open>4*i+2\<close> for \<open>i < width*height\<close>; \<open>readable\<close> says that all of
  them exist. The functions below return \<open>None\<close> on a raster where it fails: their
  output would hold \<open>NaN\<close>, which the model does not follow.
\<close>

definition readable :: "ImageData \<Rightarrow> nat \<Rightarrow> bool" where
  "readable imageData n = (n = 0 \<or> 4 * (n - 1) + 2 < length (data imageData))"

definition channel :: "ImageData \<Rightarrow> nat \<Rightarrow> real" where
  "channel imageData k = real (unat (data imageData ! k))"

section \<open>terrainFilters.ts\<close>

text \<open>
  The source file holds two revisions of the module, one after the other. The model is
  the later one: the decoder with the cap at \<open>ABSOLUTE_MAX_HEIGHT\<close>, and the Hampel filter
  behind the filter method \<open>'median'\<close>.
\<close>

datatype FilterMethod = FilterNone | Capping | Median

definition MAX_SPIKE_HEIGHT :: real where
  "MAX_SPIKE_HEIGHT = 3500"

definition ABSOLUTE_MAX_HEIGHT :: real where
  "ABSOLUTE_MAX_HEIGHT = 8000"

definition HAMPEL_THRESHOLD_MULTIPLIER :: real where
  "HAMPEL_THRESHOLD_MULTIPLIER = 3.0"

text \<open>The decoder of the filter pipeline, with its cap at \<open>ABSOLUTE_MAX_HEIGHT\<close>.\<close>

definition terrainRGBToHeight :: "real \<Rightarrow> real \<Rightarrow> real \<Rightarrow> real" where
  "terrainRGBToHeight r g b =
     (let height = -10000 + ((r * 256 * 256 + g * 256 + b) * 0.1)
      in min height ABSOLUTE_MAX_HEIGHT)"

text \<open>
  The loop \<open>for (i = 0; i < width * height; i++) heights[i] = terrainRGBToHeight(r, g, b)\<close>
  that opens \<open>applyCappingFilter\<close>, \<open>applyHampelFilter\<close> and \<open>applyNoFilter\<close>.
\<close>

definition decodeHeights :: "ImageData \<Rightarrow> nat \<Rightarrow> nat \<Rightarrow> real list" where
  "decodeHeights imageData width height =
     map (\<lambda>i. let idx = i * 4;
                   r = channel imageData idx;
                   g = channel imageData (idx + 1);
                   b = channel imageData (idx + 2)
               in terrainRGBToHeight r g b)
         [0 ..< width * height]"

definition applyCappingFilter :: "ImageData \<Rightarrow> nat \<Rightarrow> nat \<Rightarrow> real list option" where
  "applyCappingFilter imageData width height =
     (if readable imageData (width * height)
      then Some (map (\<lambda>elevation. min elevation MAX_SPIKE_HEIGHT)
                     (decodeHeights imageData width height))
      else None)"

text \<open>
  \<open>calculateMedian\<close> sorts a copy with the comparator \<open>a - b\<close>, that is ascending.
  On the empty list the source adds two \<open>undefined\<close> cells and returns \<open>NaN\<close>: \<open>None\<close>.
\<close>

definition calculateMedian :: "real list \<Rightarrow> real option" where
  "calculateMedian values =
     (let sorted = sort values;
          mid = length sorted div 2
      in if sorted = [] then None
         else if length sorted mod 2 = 0
         then Some ((sorted ! (mid - 1) + sorted ! mid) / 2)
         else Some (sorted ! mid))"

text \<open>
  The 5x5 window around \<open>(x, y)\<close>, rows first, restricted to the raster. It is called
  with a height list of length \<open>width * height\<close>, so every index it reads exists.
\<close>

definition get5x5KernelHeights :: "real list \<Rightarrow> nat \<Rightarrow> nat \<Rightarrow> nat \<Rightarrow> nat \<Rightarrow> real list" where
  "get5x5KernelHeights heights width height x y =
     concat (map (\<lambda>dy.
       concat (map (\<lambda>dx.
         let nx = int x + dx;
             ny = int y + dy
         in if nx \<ge> 0 \<and> nx < int width \<and> ny \<ge> 0 \<and> ny < int height
            then [heights ! nat (ny * int width + nx)]
            else [])
         [-2 .. 2]))
       [-2 .. 2])"

definition calculateMAD :: "real list \<Rightarrow> real \<Rightarrow> real option" where
  "calculateMAD values median =
     (let absoluteDeviations = map (\<lambda>v. \<bar>v - median\<bar>) values
      in calculateMedian absoluteDeviations)"

text \<open>
  One iteration of the double loop of \<open>applyHampelFilter\<close>: the statistics are read from
  \<open>heights\<close>, the replacement is written to \<open>filtered\<close>. A \<open>NaN\<close> median or MAD makes
  the comparison \<open>deviation > threshold\<close> false, so the cell is left alone.
\<close>

definition hampelStep :: "real list \<Rightarrow> nat \<Rightarrow> nat \<Rightarrow> nat \<Rightarrow> nat \<Rightarrow> real list \<Rightarrow> real list" where
  "hampelStep heights width height y x filtered =
     (let idx = y * width + x;
          centerHeight = heights ! idx;
          kernelHeights = get5x5KernelHeights heights width height x y
      in if length kernelHeights \<ge> 9
         then (case calculateMedian kernelHeights of
                 None \<Rightarrow> filtered
               | Some localMedian \<Rightarrow>
                  (case calculateMAD kernelHeights localMedian of
                     None \<Rightarrow> filtered
                   | Some mad \<Rightarrow>
                      (let epsilon = 0.01;
                           threshold = HAMPEL_THRESHOLD_MULTIPLIER * (mad + epsilon);
                           deviation = \<bar>centerHeight - localMedian\<bar>;
                           isSpike = deviation > threshold
                       in if isSpike then filtered[idx := localMedian] else filtered)))
         else filtered)"

definition applyHampelFilter :: "ImageData \<Rightarrow> nat \<Rightarrow> nat \<Rightarrow> real list option" where
  "applyHampelFilter imageData width height =
     (if readable imageData (width * height)
      then (let heights = decodeHeights imageData width height;
                filtered = heights
            in Some (fold (\<lambda>y. fold (hampelStep heights width height y) [0 ..< width])
                          [0 ..< height] filtered))
      else None)"

definition applyNoFilter :: "ImageData \<Rightarrow> nat \<Rightarrow> nat \<Rightarrow> real list option" where
  "applyNoFilter imageData width height =
     (if readable imageData (width * height)
      then Some (decodeHeights imageData width height)
      else None)"

fun applyTerrainFilter :: "ImageData \<Rightarrow> nat \<Rightarrow> nat \<Rightarrow> FilterMethod \<Rightarrow> real list option" where
  "applyTerrainFilter imageData width height Capping = applyCappingFilter imageData width height"
| "applyTerrainFilter imageData width height Median = applyHampelFilter imageData width height"
| "applyTerrainFilter imageData width height FilterNone = applyNoFilter imageData width height"

subsection \<open>The Hampel filter, cell by cell\<close>

text \<open>
  Two definitions for the proofs. \<open>hampelReplacement\<close> is the value one iteration of the
  loop writes, if it writes one; \<open>hampelOut\<close> is the resulting cell. Lemma
  \<open>applyHampelFilter_pointwise\<close> proves that the loops of \<open>applyHampelFilter\<close> compute
  exactly these cells.
\<close>

definition hampelReplacement :: "real list \<Rightarrow> nat \<Rightarrow> nat \<Rightarrow> nat \<Rightarrow> nat \<Rightarrow> real option" where
  "hampelReplacement heights width height y x =
     (let kernelHeights = get5x5KernelHeights heights width height x y
      in if length kernelHeights \<ge> 9
         then (case calculateMedian kernelHeights of
                 None \<Rightarrow> None
               | Some localMedian \<Rightarrow>
                  (case calculateMAD kernelHeights localMedian of
                     None \<Rightarrow> None
                   | Some mad \<Rightarrow>
                      if \<bar>heights ! (y * width + x) - localMedian\<bar>
                           > HAMPEL_THRESHOLD_MULTIPLIER * (mad + 0.01)
                      then Some localMedian else None))
         else None)"

definition hampelOut :: "real list \<Rightarrow> nat \<Rightarrow> nat \<Rightarrow> nat \<Rightarrow> real" where
  "hampelOut heights width height idx =
     (case hampelReplacement heights width height (idx div width) (idx mod width) of
        None \<Rightarrow> heights ! idx
      | Some localMedian \<Rightarrow> localMedian)"

subsection \<open>A raster with one spike\<close>

text \<open>
  A 5x5 raster: the bytes \<open>(1, 138, 136)\<close> encode \<open>101000\<close> decimetres above -10000 m, that is
  100 m, and \<open>(2, 73, 240)\<close> encode \<open>150000\<close>, that is 5000 m, in the centre cell.
\<close>

definition spikeRaster :: ImageData where
  "spikeRaster = \<lparr> data =
     [1, 138, 136, 255,  1, 138, 136, 255,  1, 138, 136, 255,  1, 138, 136, 255,  1, 138, 136, 255,
      1, 138, 136, 255,  1, 138, 136, 255,  1, 138, 136, 255,  1, 138, 136, 255,  1, 138, 136, 255,
      1, 138, 136, 255,  1, 138, 136, 255,  2, 73, 240, 255,   1, 138, 136, 255,  1, 138, 136, 255,
      1, 138, 136, 255,  1, 138, 136, 255,  1, 138, 136, 255,  1, 138, 136, 255,  1, 138, 136, 255,
      1, 138, 136, 255,  1, 138, 136, 255,  1, 138, 136, 255,  1, 138, 136, 255,  1, 138, 136, 255] \<rparr>"

definition spikeField :: "real list" where
  "spikeField = [100, 100, 100, 100, 100,
                 100, 100, 100, 100, 100,
                 100, 100, 5000, 100, 100,
                 100, 100, 100, 100, 100,
                 100, 100, 100, 100, 100]"

section \<open>tileUtils.ts\<close>

record BoundingBox =
  minLon :: real
  minLat :: real
  maxLon :: real
  maxLat :: real

text \<open>
  \<open>TileCoord\<close> has the fields \<open>x\<close>, \<open>y\<close> and \<open>z\<close> in the source; they carry a prefix
  here, because a record field is a constant and \<open>x\<close> and \<open>y\<close> are wanted as variables.
  Tile indices are integers, the zoom is a natural number.
\<close>

record TileCoord =
  tile_x :: int
  tile_y :: int
  tile_z :: nat

text \<open>
  The bounding boxes \<open>parseBoundingBox\<close> accepts: the spec's invariant of \<open>BoundingBox\<close>.
\<close>

definition validBoundingBox :: "BoundingBox \<Rightarrow> bool" where
  "validBoundingBox bbox =
     (\<not> (minLon bbox \<ge> maxLon bbox \<or> minLat bbox \<ge> maxLat bbox
         \<or> minLon bbox < -180 \<or> maxLon bbox > 180 \<or> minLat bbox < -90 \<or> maxLat bbox > 90))"

text \<open>
  The sources import \<open>tilebelt.pointToTile\<close> from the package @mapbox/tilebelt and do not
  contain it. The functions of \<open>tileUtils.ts\<close> take it as their first argument \<open>pt\<close>: a
  function from longitude, latitude and zoom to a pair of tile indices. The indices are
  JavaScript numbers, whole but not always finite: at the latitude 90 the package returns
  the row \<open>-Infinity\<close>, at -90 the row \<open>Infinity\<close>. \<open>Some (x, y)\<close> is a pair of finite
  indices; \<open>None\<close> is a pair in which an index is \<open>Infinity\<close> or \<open>-Infinity\<close>.
\<close>

type_synonym pointToTileFn = "real \<Rightarrow> real \<Rightarrow> nat \<Rightarrow> (int \<times> int) option"

text \<open>
  The number of tiles the corners of \<open>bbox\<close> span at zoom \<open>z\<close>: the body of the loop of
  \<open>calculateZoomLevel\<close> up to \<open>totalTiles\<close>. With an infinite index the differences, and
  with them \<open>totalTiles\<close>, are \<open>Infinity\<close> or \<open>NaN\<close>: \<open>None\<close>.
\<close>

definition totalTiles :: "pointToTileFn \<Rightarrow> BoundingBox \<Rightarrow> nat \<Rightarrow> int option" where
  "totalTiles pt bbox z =
     (case pt (minLon bbox) (maxLat bbox) z of
        None \<Rightarrow> None
      | Some topLeft \<Rightarrow>
          (case pt (maxLon bbox) (minLat bbox) z of
             None \<Rightarrow> None
           | Some bottomRight \<Rightarrow>
               (let tilesX = \<bar>fst bottomRight - fst topLeft\<bar> + 1;
                    tilesY = \<bar>snd bottomRight - snd topLeft\<bar> + 1
                in Some (tilesX * tilesY))))"

text \<open>
  The test \<open>totalTiles <= maxTiles\<close>: false when \<open>totalTiles\<close> is \<open>Infinity\<close> or \<open>NaN\<close>.
\<close>

definition withinBudget :: "pointToTileFn \<Rightarrow> BoundingBox \<Rightarrow> int \<Rightarrow> nat \<Rightarrow> bool" where
  "withinBudget pt bbox maxTiles z =
     (case totalTiles pt bbox z of
        None \<Rightarrow> False
      | Some tiles \<Rightarrow> tiles \<le> maxTiles)"

text \<open>
  The loop \<open>for (z = 0; z <= 18; z++)\<close> with its \<open>break\<close>; \<open>zoom\<close> is the loop's variable
  of that name.
\<close>

function zoomScan :: "pointToTileFn \<Rightarrow> BoundingBox \<Rightarrow> int \<Rightarrow> nat \<Rightarrow> nat \<Rightarrow> nat" where
  "zoomScan pt bbox maxTiles z zoom =
     (if z \<le> 18
      then (if withinBudget pt bbox maxTiles z
            then zoomScan pt bbox maxTiles (z + 1) z
            else zoom)
      else zoom)"
  by pat_completeness auto
termination
  by (relation "measure (\<lambda>(pt, bbox, maxTiles, z, zoom). 19 - z)") auto

declare zoomScan.simps [simp del]

text \<open>
  \<open>maxTiles\<close> is an optional parameter with the default 16: \<open>None\<close> is the call without it.
\<close>

definition calculateZoomLevel :: "pointToTileFn \<Rightarrow> BoundingBox \<Rightarrow> int option \<Rightarrow> nat" where
  "calculateZoomLevel pt bbox maxTilesArg =
     (let maxTiles = (case maxTilesArg of None \<Rightarrow> 16 | Some m \<Rightarrow> m);
          zoom = zoomScan pt bbox maxTiles 0 10
      in max 8 (min zoom 15))"

text \<open>
  \<open>getTilesForBoundingBox\<close> runs \<open>for (x = minX; x <= maxX; x++)\<close> around
  \<open>for (y = minY; y <= maxY; y++)\<close>. With finite indices the loops run through the
  rectangle and the function returns the list. With an infinite index a loop never
  ends: a counter that starts at \<open>-Infinity\<close> stays there, since \<open>-Infinity + 1\<close> is
  \<open>-Infinity\<close>, and no counter passes the bound \<open>Infinity\<close>. The function pushes tiles for
  ever and returns nothing: \<open>None\<close>.
\<close>

definition getTilesForBoundingBox ::
  "pointToTileFn \<Rightarrow> BoundingBox \<Rightarrow> nat \<Rightarrow> TileCoord list option" where
  "getTilesForBoundingBox pt bbox zoom =
     (case pt (minLon bbox) (maxLat bbox) zoom of
        None \<Rightarrow> None
      | Some topLeft \<Rightarrow>
          (case pt (maxLon bbox) (minLat bbox) zoom of
             None \<Rightarrow> None
           | Some bottomRight \<Rightarrow>
               (let minX = min (fst topLeft) (fst bottomRight);
                    maxX = max (fst topLeft) (fst bottomRight);
                    minY = min (snd topLeft) (snd bottomRight);
                    maxY = max (snd topLeft) (snd bottomRight)
                in Some (concat (map (\<lambda>x. map (\<lambda>y. \<lparr> tile_x = x, tile_y = y, tile_z = zoom \<rparr>)
                                               [minY .. maxY])
                                     [minX .. maxX])))))"

text \<open>The decoder that \<open>tileUtils.ts\<close> exports: the affine formula alone.\<close>

definition tileUtils_terrainRGBToHeight :: "real \<Rightarrow> real \<Rightarrow> real \<Rightarrow> real" where
  "tileUtils_terrainRGBToHeight r g b = -10000 + ((r * 256 * 256 + g * 256 + b) * 0.1)"

subsection \<open>The tile index of a point\<close>

text \<open>
  Modelled from the spec: \<open>pointToTile\<close> of the package @mapbox/tilebelt, which is not among
  the sources. The spec calls it the standard web-mercator tile index formula; the
  definition is that formula as the package computes it: \<open>x = 2^z * (lon / 360 + 0.5)\<close>,
  \<open>y = 2^z * (0.5 - 0.25 * ln ((1 + sin \<phi>) / (1 - sin \<phi>)) / \<pi>)\<close> for the latitude \<open>\<phi>\<close> in
  radians, \<open>x\<close> wrapped into \<open>[0, 2^z)\<close> with the remainder operator, both rounded down.

  Where the sine is 1, at the latitude 90, the quotient is \<open>2 / 0\<close>, that is \<open>Infinity\<close>,
  and \<open>y\<close> is \<open>-Infinity\<close>; where the sine is -1, at the latitude -90, the quotient is 0,
  its logarithm \<open>-Infinity\<close> and \<open>y\<close> is \<open>Infinity\<close>. Rounding down keeps both. These are
  the pairs \<open>None\<close> stands for.
\<close>

definition jsRemainder :: "real \<Rightarrow> real \<Rightarrow> real" where
  \<comment> \<open>\<open>a % b\<close>: the quotient is truncated towards zero, the sign follows \<open>a\<close>.\<close>
  "jsRemainder a b =
     (let q = a / b;
          t = (if q \<ge> 0 then \<lfloor>q\<rfloor> else \<lceil>q\<rceil>)
      in a - b * of_int t)"

definition d2r :: real where
  "d2r = pi / 180"

definition pointToTileFraction :: "real \<Rightarrow> real \<Rightarrow> nat \<Rightarrow> (real \<times> real) option" where
  "pointToTileFraction lon lat z =
     (let sn = sin (lat * d2r);
          z2 = 2 ^ z;
          x = z2 * (lon / 360 + 0.5)
      in if sn = 1 \<or> sn = -1 then None
         else
           (let y = z2 * (0.5 - 0.25 * ln ((1 + sn) / (1 - sn)) / pi);
                x = jsRemainder x z2;
                x = (if x < 0 then x + z2 else x)
            in Some (x, y)))"

definition pointToTile :: pointToTileFn where
  "pointToTile lon lat z =
     (case pointToTileFraction lon lat z of
        None \<Rightarrow> None
      | Some tile \<Rightarrow> Some (\<lfloor>fst tile\<rfloor>, \<lfloor>snd tile\<rfloor>))"

subsection \<open>Bounding boxes used below\<close>

definition box :: "real \<Rightarrow> real \<Rightarrow> real \<Rightarrow> real \<Rightarrow> BoundingBox" where
  "box lon0 lat0 lon1 lat1 = \<lparr> minLon = lon0, minLat = lat0, maxLon = lon1, maxLat = lat1 \<rparr>"

definition contained :: "BoundingBox \<Rightarrow> BoundingBox \<Rightarrow> bool" where
  \<comment> \<open>the first box lies inside the second\<close>
  "contained b b' =
     (minLon b' \<le> minLon b \<and> maxLon b \<le> maxLon b' \<and> minLat b' \<le> minLat b \<and> maxLat b \<le> maxLat b')"

definition mercatorOffset :: "real \<Rightarrow> real" where
  \<comment> \<open>the part of a row index that depends on the latitude, for the proofs\<close>
  "mercatorOffset lat = 0.25 * ln ((1 + sin (lat * d2r)) / (1 - sin (lat * d2r))) / pi"

definition smallBox :: BoundingBox where
  "smallBox = box (-1) (-1) 1 1"

definition tallBox :: BoundingBox where
  "tallBox = box (-1) (-1) 1 89"

definition innerBox :: BoundingBox where
  "innerBox = box (-1/2) (-1/2) (1/2) (1/2)"

definition wideBox :: BoundingBox where
  "wideBox = box (-180) (-1/4000) 180 (1/4000)"

definition narrowBox :: BoundingBox where
  "narrowBox = box (-170) (-1/4000) 170 (1/4000)"

definition polarBox :: BoundingBox where
  "polarBox = box (-10) 80 10 90"

section \<open>tileStitcher.ts\<close>

datatype Style = Satellite | SatelliteV9 | SatelliteStreets | Streets | TerrainRGB

datatype error = Error string

text \<open>
  \<open>stitchTiles\<close> works on the page and the network. The model keeps a trace of what it
  does there: the canvases it creates (with the size it gives them), the tiles it fetches (the URL is a function of the
  tile, the style and the token), what it draws, and the pixel buffer it reads back. Two
  parameters stand for the outside: \<open>tileToBBOX\<close> of the package @mapbox/tilebelt, which
  \<open>tileToBoundingBox\<close> wraps, and \<open>loads\<close>, which says for each tile whether fetching and
  decoding its image succeeds. The fetches run concurrently in the source; the trace lists
  them in the order of the tile list.
\<close>

datatype effect =
    CreateCanvas int int
  | FetchTile TileCoord Style string
  | DrawImage int int int int
  | FillRect int int int int
  | DrawCropped real real real real int int
  | GetImageData int int

record StitchResult =
  canvasWidth :: int
  canvasHeight :: int
  hasImageData :: bool

definition indexOf :: "int list \<Rightarrow> int \<Rightarrow> int" where
  \<comment> \<open>\<open>Array.prototype.indexOf\<close>: the first position, or -1\<close>
  "indexOf xs v = (if v \<in> set xs then int (length (takeWhile (\<lambda>u. u \<noteq> v) xs)) else -1)"

definition loadTile ::
  "(TileCoord \<Rightarrow> bool) \<Rightarrow> int list \<Rightarrow> int list \<Rightarrow> int \<Rightarrow> Style \<Rightarrow> string \<Rightarrow> TileCoord \<Rightarrow> effect list" where
  "loadTile loads xCoords yCoords tileSize style token tile =
     FetchTile tile style token #
     (if loads tile
      then (let xIndex = indexOf xCoords (tile_x tile);
                yIndex = indexOf yCoords (tile_y tile)
            in [DrawImage (xIndex * tileSize) (yIndex * tileSize) tileSize tileSize])
      else [FillRect (indexOf xCoords (tile_x tile) * tileSize)
                     (indexOf yCoords (tile_y tile) * tileSize) tileSize tileSize])"

definition stitchTiles ::
  "(TileCoord \<Rightarrow> BoundingBox) \<Rightarrow> (TileCoord \<Rightarrow> bool) \<Rightarrow> TileCoord list \<Rightarrow> BoundingBox \<Rightarrow> Style
     \<Rightarrow> string \<Rightarrow> effect list \<Rightarrow> (error + StitchResult) \<times> effect list" where
  "stitchTiles tileToBBOX loads tiles bbox style token trace =
     (if length tiles = 0 then (Inl (Error ''No tiles provided''), trace)
      else
        (let tileBboxes = map tileToBBOX tiles;
             minLonT = Min (set (map minLon tileBboxes));
             maxLonT = Max (set (map maxLon tileBboxes));
             minLatT = Min (set (map minLat tileBboxes));
             maxLatT = Max (set (map maxLat tileBboxes));
             tileSize = 512;
             xCoords = sort (remdups (map tile_x tiles));
             yCoords = sort (remdups (map tile_y tiles));
             cWidth = int (length xCoords) * tileSize;
             cHeight = int (length yCoords) * tileSize;
             trace = trace @ [CreateCanvas cWidth cHeight];
             trace = trace @ concat (map (loadTile loads xCoords yCoords tileSize style token) tiles);
             lonRange = maxLonT - minLonT;
             latRange = maxLatT - minLatT;
             startX = ((minLon bbox - minLonT) / lonRange) * real_of_int cWidth;
             startY = ((maxLatT - maxLat bbox) / latRange) * real_of_int cHeight;
             cropWidth = ((maxLon bbox - minLon bbox) / lonRange) * real_of_int cWidth;
             cropHeight = ((maxLat bbox - minLat bbox) / latRange) * real_of_int cHeight;
             croppedWidth = \<lceil>cropWidth\<rceil>;
             croppedHeight = \<lceil>cropHeight\<rceil>;
             trace = trace @ [CreateCanvas croppedWidth croppedHeight];
             trace = trace @ [DrawCropped (max 0 startX) (max 0 startY) cropWidth cropHeight
                            croppedWidth croppedHeight];
             trace = (if style = TerrainRGB
                    then trace @ [GetImageData croppedWidth croppedHeight] else trace)
         in (Inr \<lparr> canvasWidth = croppedWidth, canvasHeight = croppedHeight,
                    hasImageData = (style = TerrainRGB) \<rparr>, trace)))"

text \<open>
  The mosaic's extent \<open>lonRange\<close>, \<open>latRange\<close> is positive for the boxes of real tiles; the
  crop rectangle means nothing when a parameter \<open>tileToBBOX\<close> makes it zero. No theorem
  below reads the rectangle.
\<close>

definition createHeightmapFromTerrainRGB :: "ImageData \<Rightarrow> nat \<Rightarrow> nat \<Rightarrow> real list option" where
  "createHeightmapFromTerrainRGB imageData width height =
     (if readable imageData (width * height)
      then Some (map (\<lambda>i. let idx = i * 4;
                               r = channel imageData idx;
                               g = channel imageData (idx + 1);
                               b = channel imageData (idx + 2)
                           in tileUtils_terrainRGBToHeight r g b)
                     [0 ..< width * height])
      else None)"

definition whiteRaster :: ImageData where
  \<comment> \<open>one pixel, R = G = B = 255\<close>
  "whiteRaster = \<lparr> data = [255, 255, 255, 255] \<rparr>"

definition someTile :: TileCoord where
  "someTile = \<lparr> tile_x = 0, tile_y = 0, tile_z = 0 \<rparr>"

section \<open>MapCanvas.tsx: the displacement of the terrain mesh\<close>

text \<open>
  The effect of \<open>TerrainMesh\<close> that displaces the vertices, in the latest of the revisions
  the source file holds (the one with \<open>useRealScale\<close>). \<open>meshResolution\<close> has the type
  \<open>128 | 256 | 512 | 1024\<close>. The plane geometry has \<open>(segments + 1) * (segments + 1)\<close>
  vertices, so that \<open>positions.length / 3\<close> is that number. \<open>planeWidth\<close> is the constant
  10. \<open>horizontalDistanceMeters\<close> comes from the haversine helper and is a parameter.
\<close>

datatype MeshResolution = Res128 | Res256 | Res512 | Res1024

fun resolution :: "MeshResolution \<Rightarrow> nat" where
  "resolution Res128 = 128"
| "resolution Res256 = 256"
| "resolution Res512 = 512"
| "resolution Res1024 = 1024"

definition planeWidth :: real where
  "planeWidth = 10"

text \<open>
  The loop that finds \<open>minElevation\<close> and \<open>maxElevation\<close> starts from \<open>Infinity\<close> and
  \<open>-Infinity\<close>. On a non-empty field the first cell replaces both, and the loop is the
  fold below from that cell; on the empty field both stay infinite: \<open>None\<close>.
\<close>

definition elevationBounds :: "real list \<Rightarrow> (real \<times> real) option" where
  "elevationBounds filteredHeights =
     (case filteredHeights of
        [] \<Rightarrow> None
      | first # _ \<Rightarrow>
          Some (fold (\<lambda>elevation (minElevation, maxElevation).
                        (if elevation < minElevation then elevation else minElevation,
                         if elevation > maxElevation then elevation else maxElevation))
                     filteredHeights (first, first)))"

text \<open>
  With infinite bounds the range \<open>maxElevation - minElevation\<close> is \<open>-Infinity\<close>, which is
  not positive: the fallback 0.01.
\<close>

definition baseScaleOf :: "bool \<Rightarrow> real \<Rightarrow> (real \<times> real) option \<Rightarrow> real" where
  "baseScaleOf useRealScale horizontalDistanceMeters bounds =
     (if useRealScale
      then (if horizontalDistanceMeters > 0
            then (let horizontalScaleFactor = planeWidth / horizontalDistanceMeters
                  in horizontalScaleFactor)
            else 0.1)
      else (let targetElevationUnits = planeWidth * 0.25
            in case bounds of
                 None \<Rightarrow> 0.01
               | Some (minElevation, maxElevation) \<Rightarrow>
                   (let elevationRange = maxElevation - minElevation
                    in if elevationRange > 0
                       then targetElevationUnits / elevationRange
                       else 0.01)))"

text \<open>
  \<open>sampleHeight\<close> clamps the pixel coordinates and reads the field. A read past the end
  of the field is \<open>undefined\<close>, and the elevation computed from it is \<open>NaN\<close>: \<open>None\<close>.
\<close>

definition sampleHeight :: "real list \<Rightarrow> nat \<Rightarrow> nat \<Rightarrow> real \<Rightarrow> real \<Rightarrow> real option" where
  "sampleHeight filteredHeights terrainWidth terrainHeight x y =
     (let px = max 0 (min \<lfloor>x\<rfloor> (int terrainWidth - 1));
          py = max 0 (min \<lfloor>y\<rfloor> (int terrainHeight - 1));
          idx = nat (py * int terrainWidth + px)
      in if idx < length filteredHeights then Some (filteredHeights ! idx) else None)"

text \<open>
  The bilinear sampler: the body of the vertex loop up to \<open>elevationMeters\<close>, for the
  vertex \<open>i\<close>. With \<open>segments = 0\<close> the quotient \<open>vertexX / segments\<close> is \<open>0 / 0\<close>, that is
  \<open>NaN\<close>.
\<close>

definition elevationMeters :: "real list \<Rightarrow> nat \<Rightarrow> nat \<Rightarrow> nat \<Rightarrow> nat \<Rightarrow> real option" where
  "elevationMeters filteredHeights terrainWidth terrainHeight segments i =
     (if segments = 0 then None
      else
        (let vertexX = i mod (segments + 1);
             vertexY = i div (segments + 1);
             u = real vertexX / real segments;
             v = real vertexY / real segments;
             terrainX = u * (real terrainWidth - 1);
             terrainY = v * (real terrainHeight - 1);
             x0 = \<lfloor>terrainX\<rfloor>;
             y0 = \<lfloor>terrainY\<rfloor>;
             x1 = min (x0 + 1) (int terrainWidth - 1);
             y1 = min (y0 + 1) (int terrainHeight - 1);
             fx = terrainX - real_of_int x0;
             fy = terrainY - real_of_int y0;
             sample = sampleHeight filteredHeights terrainWidth terrainHeight
         in case (sample (real_of_int x0) (real_of_int y0), sample (real_of_int x1) (real_of_int y0),
                  sample (real_of_int x0) (real_of_int y1), sample (real_of_int x1) (real_of_int y1)) of
              (Some h00, Some h10, Some h01, Some h11) \<Rightarrow>
                (let h0 = h00 * (1 - fx) + h10 * fx;
                     h1 = h01 * (1 - fx) + h11 * fx
                 in Some (h0 * (1 - fy) + h1 * fy))
            | _ \<Rightarrow> None))"

text \<open>The value written to \<open>positions[i * 3 + 2]\<close>; \<open>None\<close> is \<open>NaN\<close>.\<close>

definition vertexElevation ::
  "real list \<Rightarrow> nat \<Rightarrow> nat \<Rightarrow> nat \<Rightarrow> bool \<Rightarrow> real \<Rightarrow> real \<Rightarrow> nat \<Rightarrow> real option" where
  "vertexElevation filteredHeights terrainWidth terrainHeight segments useRealScale
       heightExaggeration horizontalDistanceMeters i =
     (let bounds = elevationBounds filteredHeights;
          baseScale = baseScaleOf useRealScale horizontalDistanceMeters bounds
      in case elevationMeters filteredHeights terrainWidth terrainHeight segments i of
           None \<Rightarrow> None
         | Some meters \<Rightarrow>
             (if useRealScale
              then Some (meters * baseScale * heightExaggeration)
              else (case bounds of
                      None \<Rightarrow> None
                    | Some (minElevation, maxElevation) \<Rightarrow>
                        (let normalizedElevation = meters - minElevation
                         in Some (normalizedElevation * baseScale * heightExaggeration)))))"

definition displaceTerrain ::
  "ImageData \<Rightarrow> nat \<Rightarrow> nat \<Rightarrow> FilterMethod \<Rightarrow> MeshResolution \<Rightarrow> bool \<Rightarrow> real \<Rightarrow> real
     \<Rightarrow> real option list option" where
  "displaceTerrain terrainImageData terrainWidth terrainHeight filterMethod meshResolution
       useRealScale heightExaggeration horizontalDistanceMeters =
     (let segments = resolution meshResolution
      in case applyTerrainFilter terrainImageData terrainWidth terrainHeight filterMethod of
           None \<Rightarrow> None
         | Some filteredHeights \<Rightarrow>
             Some (map (vertexElevation filteredHeights terrainWidth terrainHeight segments
                          useRealScale heightExaggeration horizontalDistanceMeters)
                       [0 ..< (segments + 1) * (segments + 1)]))"

definition rampRaster :: ImageData where
  \<comment> \<open>2x2: three cells of 0 m, bytes \<open>(1, 134, 160)\<close>, and one of 1000 m, bytes \<open>(1, 173, 176)\<close>\<close>
  "rampRaster = \<lparr> data = [1, 134, 160, 255,  1, 134, 160, 255,
                            1, 134, 160, 255,  1, 173, 176, 255] \<rparr>"

definition rampField :: "real list" where
  "rampField = [0, 0, 0, 1000]"

section \<open>The decoder of the filter pipeline\<close>

text \<open>
  C1. For all integers \<open>r\<close>, \<open>g\<close>, \<open>b\<close> in \<open>[0,255]\<close> the decoder of the filter pipeline
  returns \<open>min (-10000 + (r*65536 + g*256 + b) * 0.1) 8000\<close>: a triple whose affine value
  exceeds 8000 yields exactly 8000, and a value that does not exceed 8000 passes through
  unchanged, the negative ones included, since there is no lower bound.
\<close>

theorem terrainRGBToHeight_capped:
  fixes r g b :: nat
  assumes "r \<le> 255" and "g \<le> 255" and "b \<le> 255"
  shows "terrainRGBToHeight (real r) (real g) (real b)
           = min (-10000 + real (r * 65536 + g * 256 + b) * 0.1) 8000
         \<and> (-10000 + real (r * 65536 + g * 256 + b) * 0.1 > 8000
              \<longrightarrow> terrainRGBToHeight (real r) (real g) (real b) = 8000)
         \<and> (-10000 + real (r * 65536 + g * 256 + b) * 0.1 \<le> 8000
              \<longrightarrow> terrainRGBToHeight (real r) (real g) (real b)
                    = -10000 + real (r * 65536 + g * 256 + b) * 0.1)"
  by (simp add: terrainRGBToHeight_def ABSOLUTE_MAX_HEIGHT_def Let_def min_def)

theorem terrainRGBToHeight_capped_witness:
  "terrainRGBToHeight (real (255::nat)) (real (255::nat)) (real (255::nat)) = 8000
   \<and> terrainRGBToHeight (real (0::nat)) (real (0::nat)) (real (0::nat)) = -10000
   \<and> terrainRGBToHeight (real (1::nat)) (real (134::nat)) (real (159::nat)) = - (1 / 10)"
  using terrainRGBToHeight_capped [of 255 255 255]
        terrainRGBToHeight_capped [of 0 0 0]
        terrainRGBToHeight_capped [of 1 134 159]
  by simp

section \<open>The Hampel filter\<close>

subsection \<open>The loops compute the cells one by one\<close>

lemma hampelStep_replacement:
  "hampelStep heights width height y x filtered =
     (case hampelReplacement heights width height y x of
        None \<Rightarrow> filtered
      | Some localMedian \<Rightarrow> filtered[y * width + x := localMedian])"
  by (simp add: hampelStep_def hampelReplacement_def Let_def split: option.splits)

lemma fold_update_length:
  "length (fold (\<lambda>k f. case r k of None \<Rightarrow> f | Some v \<Rightarrow> f[i k := v]) ks f) = length f"
  by (induction ks arbitrary: f) (auto split: option.splits)

lemma fold_update_untouched:
  "j \<notin> i ` set ks \<Longrightarrow>
   fold (\<lambda>k f. case r k of None \<Rightarrow> f | Some v \<Rightarrow> f[i k := v]) ks f ! j = f ! j"
  by (induction ks arbitrary: f) (auto split: option.splits)

lemma fold_update_nth:
  "distinct (map i ks) \<Longrightarrow> k \<in> set ks \<Longrightarrow> i k < length f \<Longrightarrow>
   fold (\<lambda>k f. case r k of None \<Rightarrow> f | Some v \<Rightarrow> f[i k := v]) ks f ! (i k)
     = (case r k of None \<Rightarrow> f ! (i k) | Some v \<Rightarrow> v)"
proof (induction ks arbitrary: f)
  case Nil
  then show ?case by simp
next
  case (Cons a ks)
  let ?step = "\<lambda>k f. case r k of None \<Rightarrow> f | Some v \<Rightarrow> f[i k := v]"
  show ?case
  proof (cases "k = a")
    case True
    from Cons.prems have "i a \<notin> i ` set ks" by auto
    then have "fold ?step ks (?step a f) ! (i a) = ?step a f ! (i a)"
      by (rule fold_update_untouched)
    with True Cons.prems(3) show ?thesis
      by (auto split: option.splits)
  next
    case False
    with Cons.prems have k: "k \<in> set ks" and d: "distinct (map i ks)" and ne: "i a \<noteq> i k"
      by auto
    have len: "i k < length (?step a f)"
      using Cons.prems(3) by (auto split: option.splits)
    have "fold ?step ks (?step a f) ! (i k)
            = (case r k of None \<Rightarrow> ?step a f ! (i k) | Some v \<Rightarrow> v)"
      by (rule Cons.IH [OF d k len])
    moreover have "?step a f ! (i k) = f ! (i k)"
      using ne by (auto split: option.splits)
    ultimately show ?thesis by (simp split: option.splits)
  qed
qed

lemma fold_fold_product:
  "fold (\<lambda>y. fold (g y) xs) ys f = fold (\<lambda>(y, x). g y x) (List.product ys xs) f"
  by (induction ys arbitrary: f) (simp_all add: fold_map comp_def)

lemma raster_index_less:
  fixes x y width height :: nat
  assumes "y < height" and "x < width"
  shows "y * width + x < width * height"
proof -
  have "y * width + x < (y + 1) * width" using assms by simp
  also have "\<dots> \<le> height * width" using assms by (intro mult_le_mono1) simp
  finally show ?thesis by (simp add: mult.commute)
qed

lemma distinct_raster_index:
  "distinct (map (\<lambda>(y, x). y * width + x) (List.product [0 ..< height] [0 ..< width]))"
proof -
  have "inj_on (\<lambda>(y, x). y * width + x) (set (List.product [0 ..< height] [0 ..< width]))"
  proof (rule inj_onI, clarsimp)
    fix y x y' x' :: nat
    assume x: "x < width" and x': "x' < width" and eq: "y * width + x = y' * width + x'"
    have "(y * width + x) div width = y" "(y' * width + x') div width = y'"
      using x x' by simp_all
    with eq have "y = y'" by simp
    with eq show "y = y' \<and> x = x'" by simp
  qed
  then show ?thesis
    by (simp add: distinct_map distinct_product)
qed

lemma length_decodeHeights:
  "length (decodeHeights imageData width height) = width * height"
  by (simp add: decodeHeights_def)

lemma applyHampelFilter_pointwise:
  assumes "readable imageData (width * height)"
  shows "applyHampelFilter imageData width height
           = Some (map (hampelOut (decodeHeights imageData width height) width height)
                       [0 ..< width * height])"
proof -
  let ?hs = "decodeHeights imageData width height"
  let ?r = "\<lambda>(y, x). hampelReplacement ?hs width height y x"
  let ?i = "\<lambda>(y, x). y * width + x"
  let ?ks = "List.product [0 ..< height] [0 ..< width]"
  let ?step = "\<lambda>k f. case ?r k of None \<Rightarrow> f | Some v \<Rightarrow> f[?i k := v]"
  let ?out = "fold (\<lambda>y. fold (hampelStep ?hs width height y) [0 ..< width]) [0 ..< height] ?hs"
  have len: "length ?hs = width * height"
    by (rule length_decodeHeights)
  have step: "(\<lambda>(y, x). hampelStep ?hs width height y x) = ?step"
    by (auto simp: fun_eq_iff hampelStep_replacement)
  have out: "?out = fold ?step ?ks ?hs"
    by (simp only: fold_fold_product step)
  have "?out = map (hampelOut ?hs width height) [0 ..< width * height]"
  proof (rule nth_equalityI)
    show "length ?out = length (map (hampelOut ?hs width height) [0 ..< width * height])"
      by (simp only: out fold_update_length) (simp add: len)
  next
    fix j assume "j < length ?out"
    then have j: "j < width * height"
      by (simp only: out fold_update_length) (simp add: len)
    then have w: "0 < width" by (cases width) auto
    have jd: "j div width < height"
      using j w by (simp add: less_mult_imp_div_less mult.commute)
    let ?k = "(j div width, j mod width)"
    have k: "?k \<in> set ?ks" using jd w by simp
    have "fold ?step ?ks ?hs ! (?i ?k) = (case ?r ?k of None \<Rightarrow> ?hs ! (?i ?k) | Some v \<Rightarrow> v)"
      by (rule fold_update_nth [OF distinct_raster_index k]) (simp add: len j)
    then show "?out ! j = map (hampelOut ?hs width height) [0 ..< width * height] ! j"
      using j by (simp add: out hampelOut_def split: option.splits)
  qed
  with assms show ?thesis
    by (simp add: applyHampelFilter_def Let_def)
qed

subsection \<open>The spike of 5000 m on a plateau of 100 m\<close>

lemma upt_25: "[0 ..< 5 * 5]
    = [0, 1, 2, 3, 4, 5, 6, 7, 8, 9, 10, 11, 12, 13, 14, 15, 16, 17, 18, 19, 20, 21, 22, 23, 24]"
  by code_simp

lemma decode_spikeRaster: "decodeHeights spikeRaster 5 5 = spikeField"
  unfolding decodeHeights_def upt_25 spikeField_def
  by (simp add: spikeRaster_def channel_def terrainRGBToHeight_def ABSOLUTE_MAX_HEIGHT_def Let_def)

lemma readable_spikeRaster: "readable spikeRaster (5 * 5)"
  by (simp add: readable_def spikeRaster_def)

lemma hampelOut_spikeField:
  "map (hampelOut spikeField 5 5) [0 ..< 5 * 5] = replicate 25 100"
  by code_simp

lemma centre_kernel: "get5x5KernelHeights spikeField 5 5 2 2 = spikeField"
  by code_simp

lemma centre_median: "calculateMedian spikeField = Some 100"
  by code_simp

lemma centre_mad: "calculateMAD spikeField 100 = Some 0"
  by code_simp

text \<open>
  C2. On a 5x5 raster whose centre cell decodes to 5000 and whose 24 other cells decode to
  100, the filter that \<open>filterMethod = 'median'\<close> selects is the Hampel filter. At the centre
  the window is the whole field, its median is 100, its MAD is 0, the threshold is
  \<open>3.0 * (0 + 0.01) = 0.03\<close> and the deviation is 4900: the centre becomes 100. Every other
  cell keeps its 100.
\<close>

theorem hampel_spike_replaced:
  assumes "readable imageData (5 * 5)"
    and "decodeHeights imageData 5 5 = spikeField"
  shows "applyTerrainFilter imageData 5 5 Median = applyHampelFilter imageData 5 5
       \<and> applyTerrainFilter imageData 5 5 Median = Some (replicate 25 100)
       \<and> spikeField ! (2 * 5 + 2) = 5000
       \<and> calculateMedian (get5x5KernelHeights spikeField 5 5 2 2) = Some 100
       \<and> calculateMAD (get5x5KernelHeights spikeField 5 5 2 2) 100 = Some 0
       \<and> HAMPEL_THRESHOLD_MULTIPLIER * (0 + 0.01) = 0.03
       \<and> \<bar>spikeField ! (2 * 5 + 2) - 100\<bar> = 4900"
proof -
  have "applyTerrainFilter imageData 5 5 Median = Some (replicate 25 100)"
    using applyHampelFilter_pointwise [OF assms(1)]
    by (simp only: applyTerrainFilter.simps assms(2) hampelOut_spikeField)
  moreover have "spikeField ! (2 * 5 + 2) = 5000"
    by (simp add: spikeField_def)
  ultimately show ?thesis
    by (simp add: centre_kernel centre_median centre_mad HAMPEL_THRESHOLD_MULTIPLIER_def)
qed

theorem hampel_spike_replaced_witness:
  "readable spikeRaster (5 * 5)
   \<and> decodeHeights spikeRaster 5 5 = spikeField
   \<and> applyTerrainFilter spikeRaster 5 5 Median = Some (replicate 25 100)"
  using hampel_spike_replaced [OF readable_spikeRaster decode_spikeRaster]
        readable_spikeRaster decode_spikeRaster
  by simp

subsection \<open>No new extremes\<close>

lemma calculateMedian_Some:
  "calculateMedian values = Some m \<Longrightarrow> values \<noteq> []"
  by (auto simp: calculateMedian_def Let_def split: if_splits)

lemma calculateMedian_bounds:
  assumes "calculateMedian values = Some m"
  shows "Min (set values) \<le> m \<and> m \<le> Max (set values)"
proof -
  let ?s = "sort values"
  let ?mid = "length ?s div 2"
  from assms have ne: "values \<noteq> []" by (rule calculateMedian_Some)
  have bnd: "Min (set values) \<le> ?s ! k \<and> ?s ! k \<le> Max (set values)"
    if "k < length values" for k
  proof -
    from that have "?s ! k \<in> set ?s" by (intro nth_mem) simp
    then have "?s ! k \<in> set values" by simp
    then show ?thesis by simp
  qed
  have mid: "?mid < length values" using ne by (cases "values") auto
  then have mid1: "?mid - 1 < length values" by simp
  from assms ne have "m = (?s ! (?mid - 1) + ?s ! ?mid) / 2 \<or> m = ?s ! ?mid"
    by (auto simp: calculateMedian_def Let_def split: if_splits)
  with bnd [OF mid] bnd [OF mid1] show ?thesis
    by auto
qed

lemma kernel_subset:
  assumes "length heights = width * height"
  shows "set (get5x5KernelHeights heights width height x y) \<subseteq> set heights"
proof -
  have "heights ! nat (ny * int width + nx) \<in> set heights"
    if "0 \<le> nx" "nx < int width" "0 \<le> ny" "ny < int height" for nx ny :: int
  proof -
    have "nat ny < height" "nat nx < width" using that by auto
    then have "nat ny * width + nat nx < width * height"
      by (rule raster_index_less)
    moreover have "nat (ny * int width + nx) = nat ny * width + nat nx"
      using that by (simp add: nat_add_distrib nat_mult_distrib)
    ultimately show ?thesis using assms by simp
  qed
  then show ?thesis
    by (auto simp: get5x5KernelHeights_def Let_def split: if_splits)
qed

lemma hampelOut_cases:
  assumes "length heights = width * height" and "idx < width * height"
  shows "(hampelOut heights width height idx = heights ! idx
          \<or> (\<exists>kernel. kernel \<noteq> [] \<and> set kernel \<subseteq> set heights
                \<and> calculateMedian kernel = Some (hampelOut heights width height idx)))
       \<and> Min (set heights) \<le> hampelOut heights width height idx
       \<and> hampelOut heights width height idx \<le> Max (set heights)"
proof (cases "hampelReplacement heights width height (idx div width) (idx mod width)")
  case None
  have "heights ! idx \<in> set heights" using assms by simp
  then have "Min (set heights) \<le> heights ! idx \<and> heights ! idx \<le> Max (set heights)"
    by simp
  with None show ?thesis by (simp add: hampelOut_def)
next
  case (Some m)
  let ?kernel = "get5x5KernelHeights heights width height (idx mod width) (idx div width)"
  from Some have med: "calculateMedian ?kernel = Some m"
    by (auto simp: hampelReplacement_def Let_def split: if_splits option.splits)
  then have ne: "?kernel \<noteq> []" by (rule calculateMedian_Some)
  have sub: "set ?kernel \<subseteq> set heights" using assms(1) by (rule kernel_subset)
  have fin: "finite (set heights)" by simp
  from ne have ne': "set ?kernel \<noteq> {}" by simp
  have "Min (set heights) \<le> Min (set ?kernel)"
    using sub ne' fin by (rule Min_antimono)
  moreover have "Max (set ?kernel) \<le> Max (set heights)"
    using sub ne' fin by (rule Max_mono)
  moreover note calculateMedian_bounds [OF med]
  ultimately have "Min (set heights) \<le> m \<and> m \<le> Max (set heights)" by linarith
  with Some med ne sub show ?thesis
    by (auto simp: hampelOut_def)
qed

text \<open>
  C9. On every raster whose bytes exist, \<open>applyHampelFilter\<close> returns a field of
  \<open>width * height\<close> cells. Each cell is either its own decoded (8000-capped) value or the
  median of a non-empty list of decoded values of the field, and it lies between the
  least and the greatest decoded value: the filter introduces no new global minimum or
  maximum.
\<close>

theorem applyHampelFilter_within_extremes:
  assumes "readable imageData (width * height)"
  shows "\<exists>out. applyHampelFilter imageData width height = Some out
           \<and> length out = width * height
           \<and> (\<forall>idx < width * height.
                 (out ! idx = decodeHeights imageData width height ! idx
                  \<or> (\<exists>kernel. kernel \<noteq> []
                        \<and> set kernel \<subseteq> set (decodeHeights imageData width height)
                        \<and> calculateMedian kernel = Some (out ! idx)))
                 \<and> Min (set (decodeHeights imageData width height)) \<le> out ! idx
                 \<and> out ! idx \<le> Max (set (decodeHeights imageData width height)))"
proof -
  let ?hs = "decodeHeights imageData width height"
  let ?out = "map (hampelOut ?hs width height) [0 ..< width * height]"
  have "applyHampelFilter imageData width height = Some ?out"
    using assms by (rule applyHampelFilter_pointwise)
  moreover have "length ?out = width * height" by simp
  moreover have "\<forall>idx < width * height.
      (?out ! idx = ?hs ! idx
        \<or> (\<exists>kernel. kernel \<noteq> [] \<and> set kernel \<subseteq> set ?hs
              \<and> calculateMedian kernel = Some (?out ! idx)))
      \<and> Min (set ?hs) \<le> ?out ! idx \<and> ?out ! idx \<le> Max (set ?hs)"
    using hampelOut_cases [OF length_decodeHeights] by simp
  ultimately show ?thesis by blast
qed

theorem applyHampelFilter_within_extremes_witness:
  "readable spikeRaster (5 * 5)
   \<and> (\<exists>out. applyHampelFilter spikeRaster 5 5 = Some out
         \<and> length out = 5 * 5
         \<and> (\<forall>idx < 5 * 5.
               (out ! idx = decodeHeights spikeRaster 5 5 ! idx
                \<or> (\<exists>kernel. kernel \<noteq> []
                      \<and> set kernel \<subseteq> set (decodeHeights spikeRaster 5 5)
                      \<and> calculateMedian kernel = Some (out ! idx)))
               \<and> Min (set (decodeHeights spikeRaster 5 5)) \<le> out ! idx
               \<and> out ! idx \<le> Max (set (decodeHeights spikeRaster 5 5))))"
  using applyHampelFilter_within_extremes [OF readable_spikeRaster] readable_spikeRaster
  by blast

section \<open>The tile index of a point\<close>

lemma jsRemainder_small:
  assumes "0 \<le> a" and "a < b"
  shows "jsRemainder a b = a"
proof -
  have b: "0 < b" using assms by simp
  have "0 \<le> a / b" "a / b < 1" using assms b by simp_all
  then have "\<lfloor>a / b\<rfloor> = 0" by linarith
  with \<open>0 \<le> a / b\<close> show ?thesis
    by (simp add: jsRemainder_def Let_def)
qed

lemma degrees_to_radians:
  shows "-90 < lat \<Longrightarrow> - (pi / 2) < lat * d2r"
    and "lat < 90 \<Longrightarrow> lat * d2r < pi / 2"
    and "a \<le> b \<Longrightarrow> a * d2r \<le> b * d2r"
proof -
  have d: "0 < d2r" by (simp add: d2r_def)
  have h: "90 * d2r = pi / 2" by (simp add: d2r_def)
  show "- (pi / 2) < lat * d2r" if "-90 < lat"
    using mult_strict_right_mono [OF that d] h by simp
  show "lat * d2r < pi / 2" if "lat < 90"
    using mult_strict_right_mono [OF that d] h by simp
  show "a * d2r \<le> b * d2r" if "a \<le> b"
    using that d by simp
qed

lemma sin_degrees_bounds:
  assumes "-90 < lat" and "lat < 90"
  shows "-1 < sin (lat * d2r)" and "sin (lat * d2r) < 1"
proof -
  have "- (pi / 2) < lat * d2r" using assms(1) by (rule degrees_to_radians)
  moreover have "lat * d2r < pi / 2" using assms(2) by (rule degrees_to_radians)
  ultimately have c: "0 < cos (lat * d2r)" by (rule cos_gt_zero_pi)
  have "(sin (lat * d2r))\<^sup>2 < 1"
    using c by (simp add: sin_squared_eq)
  then have "\<bar>sin (lat * d2r)\<bar> < 1"
    by (simp add: abs_square_less_1)
  then show "-1 < sin (lat * d2r)" and "sin (lat * d2r) < 1" by auto
qed

lemma mercatorOffset_mono:
  assumes "-90 < a" and "a \<le> b" and "b < 90"
  shows "mercatorOffset a \<le> mercatorOffset b"
proof -
  let ?s = "sin (a * d2r)" and ?t = "sin (b * d2r)"
  have sa: "-1 < ?s" "?s < 1" using assms by (auto intro: sin_degrees_bounds)
  have sb: "-1 < ?t" "?t < 1" using assms by (auto intro: sin_degrees_bounds)
  have "- (pi / 2) \<le> a * d2r" "a * d2r \<le> b * d2r" "b * d2r \<le> pi / 2"
    using assms degrees_to_radians(1) [of a] degrees_to_radians(2) [of b]
      degrees_to_radians(3) [of a b] by simp_all
  then have st: "?s \<le> ?t" by (intro sin_monotone_2pi_le) auto
  have "(1 + ?s) / (1 - ?s) \<le> (1 + ?t) / (1 - ?t)"
    using sa sb st by (simp add: field_simps)
  moreover have "0 < (1 + ?s) / (1 - ?s)" using sa by simp
  ultimately have "ln ((1 + ?s) / (1 - ?s)) \<le> ln ((1 + ?t) / (1 - ?t))"
    by (rule ln_mono)
  then show ?thesis
    by (simp add: mercatorOffset_def divide_right_mono)
qed

lemma mercatorOffset_minus:
  assumes "-90 < lat" and "lat < 90"
  shows "mercatorOffset (- lat) = - mercatorOffset lat"
proof -
  let ?s = "sin (lat * d2r)"
  have s: "-1 < ?s" "?s < 1" using assms by (auto intro: sin_degrees_bounds)
  have "(1 - ?s) / (1 + ?s) = inverse ((1 + ?s) / (1 - ?s))"
    by simp
  then have "ln ((1 - ?s) / (1 + ?s)) = - ln ((1 + ?s) / (1 - ?s))"
    by (simp only: ln_inverse)
  then show ?thesis
    by (simp add: mercatorOffset_def)
qed

lemma mercatorOffset_one: "0 < mercatorOffset 1" "mercatorOffset 1 \<le> 1 / 4"
proof -
  let ?s = "sin (1 * d2r)"
  have x: "0 < 1 * d2r" "1 * d2r < pi" by (simp_all add: d2r_def)
  have s0: "0 < ?s" using x by (rule sin_gt_zero)
  have "?s \<le> 1 * d2r" using x by (intro sin_x_le_x) simp
  also have "\<dots> \<le> 1 / 45" using pi_less_4 by (simp add: d2r_def)
  finally have s1: "?s \<le> 1 / 45" .
  let ?q = "(1 + ?s) / (1 - ?s)"
  have q1: "1 < ?q" using s0 s1 by (simp add: field_simps)
  then have l0: "0 < ln ?q" by (rule ln_gt_zero)
  have "ln ?q \<le> ?q - 1" using q1 by (intro ln_le_minus_one) simp
  also have "?q - 1 = 2 * ?s / (1 - ?s)" using s1 by (simp add: field_simps)
  also have "\<dots> \<le> 1" using s0 s1 by (simp add: field_simps)
  finally have l1: "ln ?q \<le> 1" .
  show "0 < mercatorOffset 1"
    using l0 by (simp add: mercatorOffset_def)
  define t where "t = ln ?q / pi"
  have "t \<le> 1 / 2"
    using l1 l0 pi_ge_two by (simp add: t_def field_simps)
  moreover have "mercatorOffset 1 = t / 4"
    by (simp add: mercatorOffset_def t_def)
  ultimately show "mercatorOffset 1 \<le> 1 / 4"
    by linarith
qed

lemma cos_lower_bound: "1 - x\<^sup>2 / 2 \<le> cos (x::real)"
proof -
  have "cos (2 * (x / 2)) = 1 - 2 * (sin (x / 2))\<^sup>2" by (rule cos_double_sin)
  moreover have "(sin (x / 2))\<^sup>2 \<le> (x / 2)\<^sup>2"
    using abs_sin_x_le_abs_x [of "x / 2"] by (simp only: abs_le_square_iff)
  ultimately show ?thesis by (simp add: power_divide)
qed

lemma exp_two_pi_less: "exp (2 * pi) < 6561"
proof -
  have "exp (2 * pi) < exp 8" using pi_less_4 by simp
  also have "exp (8::real) = exp 1 ^ 8"
    using exp_of_nat_mult [of 8 "1::real"] by simp
  also have "\<dots> \<le> 3 ^ 8" using exp_le by (intro power_mono) simp_all
  finally show ?thesis by simp
qed

lemma mercatorOffset_89: "1 / 2 < mercatorOffset 89"
proof -
  let ?s = "sin (89 * d2r)"
  have "?s = cos (pi / 2 - 89 * d2r)" using sin_cos_eq [of "89 * d2r"] by simp
  also have "pi / 2 - 89 * d2r = d2r" by (simp add: d2r_def)
  finally have "?s = cos d2r" .
  moreover have "1 - d2r\<^sup>2 / 2 \<le> cos d2r" by (rule cos_lower_bound)
  moreover have "d2r\<^sup>2 \<le> (1 / 45)\<^sup>2"
    using pi_less_4 by (intro power_mono) (simp_all add: d2r_def)
  ultimately have s0: "1 - 1 / 4050 \<le> ?s" by (simp add: power2_eq_square)
  have s1: "?s < 1" by (rule sin_degrees_bounds) simp_all
  let ?q = "(1 + ?s) / (1 - ?s)"
  have q: "6561 < ?q" using s0 s1 by (simp add: field_simps)
  then have "exp (2 * pi) < ?q" using exp_two_pi_less by linarith
  moreover have "0 < ?q" using q by linarith
  ultimately have "2 * pi < ln ?q"
    by (metis exp_less_cancel_iff exp_ln)
  then have "2 < ln ?q / pi"
    by (simp add: field_simps)
  moreover define t where "t = ln ?q / pi"
  moreover have "mercatorOffset 89 = t / 4"
    by (simp add: mercatorOffset_def t_def)
  ultimately show ?thesis by linarith
qed


lemma mercatorOffset_tiny:
  "0 < mercatorOffset (1/4000)" "mercatorOffset (1/4000) * 2 ^ 19 < 1"
proof -
  let ?s = "sin (1/4000 * d2r)"
  have x: "0 < 1/4000 * d2r" "1/4000 * d2r < pi" by (simp_all add: d2r_def)
  have s0: "0 < ?s" using x by (rule sin_gt_zero)
  have sx: "?s \<le> 1/4000 * d2r" using x by (intro sin_x_le_x) simp
  also have "\<dots> \<le> 1 / 2" using pi_less_4 by (simp add: d2r_def)
  finally have s1: "?s \<le> 1 / 2" .
  let ?q = "(1 + ?s) / (1 - ?s)"
  have q1: "1 < ?q" using s0 s1 by (simp add: field_simps)
  then have l0: "0 < ln ?q" by (rule ln_gt_zero)
  have "ln ?q \<le> ?q - 1" using q1 by (intro ln_le_minus_one) simp
  also have "?q - 1 = 2 * ?s / (1 - ?s)" using s1 by (simp add: field_simps)
  also have "\<dots> \<le> 4 * ?s" using s0 s1 by (simp add: field_simps)
  also have "\<dots> \<le> 4 * (1/4000 * d2r)" using sx by simp
  also have "\<dots> = pi / 180000" by (simp add: d2r_def)
  finally have l1: "ln ?q \<le> pi / 180000" .
  define t where "t = ln ?q / pi"
  have t1: "t \<le> 1 / 180000"
    using l1 by (simp add: t_def field_simps)
  have t0: "0 < t" using l0 by (simp add: t_def)
  have m: "mercatorOffset (1/4000) = t / 4"
    by (simp add: mercatorOffset_def t_def)
  show "0 < mercatorOffset (1/4000)" using t0 m by simp
  show "mercatorOffset (1/4000) * 2 ^ 19 < 1" using t1 m by simp
qed


text \<open>Off the poles the indices are finite; at a pole the row is not.\<close>

lemma pointToTileFraction_eq:
  assumes "-90 < lat" and "lat < 90"
  shows "pointToTileFraction lon lat z
           = Some (let x = jsRemainder (2 ^ z * (lon / 360 + 0.5)) (2 ^ z)
                   in if x < 0 then x + 2 ^ z else x,
                   2 ^ z * (0.5 - mercatorOffset lat))"
proof -
  have "sin (lat * d2r) \<noteq> 1" "sin (lat * d2r) \<noteq> -1"
    using sin_degrees_bounds [OF assms] by simp_all
  then show ?thesis
    by (simp add: pointToTileFraction_def mercatorOffset_def Let_def)
qed

lemma pointToTile_finite:
  assumes "-90 < lat" and "lat < 90"
  shows "\<exists>tile. pointToTile lon lat z = Some tile"
  by (simp add: pointToTile_def pointToTileFraction_eq [OF assms])

lemma pointToTile_north_pole: "pointToTile lon 90 z = None"
proof -
  have "90 * d2r = pi / 2" by (simp add: d2r_def)
  then have "sin (90 * d2r) = 1" by (simp only: sin_pi_half)
  then show ?thesis
    by (simp add: pointToTile_def pointToTileFraction_def Let_def)
qed

lemma pointToTile_eq:
  assumes "-180 \<le> lon" and "lon < 180" and "-90 < lat" and "lat < 90"
  shows "pointToTile lon lat z
           = Some (\<lfloor>2 ^ z * (lon / 360 + 0.5)\<rfloor>, \<lfloor>2 ^ z * (0.5 - mercatorOffset lat)\<rfloor>)"
proof -
  let ?x = "(2::real) ^ z * (lon / 360 + 0.5)"
  have z2: "(0::real) < 2 ^ z" by simp
  have "0 \<le> lon / 360 + 0.5" "lon / 360 + 0.5 < 1" using assms by simp_all
  then have "0 \<le> ?x" "?x < 2 ^ z * 1"
    using z2 by (simp_all del: mult_1_right)
  then have "jsRemainder ?x (2 ^ z) = ?x" "\<not> ?x < 0"
    by (simp_all add: jsRemainder_small)
  then show ?thesis
    by (simp add: pointToTile_def pointToTileFraction_eq [OF assms(3,4)] Let_def)
qed

lemma pointToTile_180:
  assumes "-90 < lat" and "lat < 90"
  shows "pointToTile 180 lat z = Some (0, \<lfloor>2 ^ z * (0.5 - mercatorOffset lat)\<rfloor>)"
proof -
  have "jsRemainder (2 ^ z) (2 ^ z) = 0"
    by (simp add: jsRemainder_def Let_def)
  then show ?thesis
    by (simp add: pointToTile_def pointToTileFraction_eq [OF assms] Let_def)
qed

lemma tile_west_north_0: "pointToTile (-1) 1 0 = Some (0, 0)"
  using mercatorOffset_one by (simp add: pointToTile_eq) linarith

lemma tile_east_south_0: "pointToTile 1 (-1) 0 = Some (0, 0)"
  using mercatorOffset_one mercatorOffset_minus [of 1] by (simp add: pointToTile_eq) linarith

lemma tile_west_north_1: "pointToTile (-1) 1 (Suc 0) = Some (0, 0)"
  using mercatorOffset_one by (simp add: pointToTile_eq) linarith

lemma tile_east_south_1: "pointToTile 1 (-1) (Suc 0) = Some (1, 1)"
  using mercatorOffset_one mercatorOffset_minus [of 1] by (simp add: pointToTile_eq) linarith

lemma tile_west_far_north_0: "\<exists>row. pointToTile (-1) 89 0 = Some (0, row) \<and> row \<le> -1"
  using mercatorOffset_89 by (simp add: pointToTile_eq) linarith

section \<open>Tile enumeration\<close>

lemma concat_map_product:
  "concat (map (\<lambda>x. map (f x) ys) xs) = map (\<lambda>(x, y). f x y) (List.product xs ys)"
  by (induction xs) simp_all

lemma getTilesForBoundingBox_product:
  assumes "pt (minLon bbox) (maxLat bbox) zoom = Some topLeft"
    and "pt (maxLon bbox) (minLat bbox) zoom = Some bottomRight"
  shows "getTilesForBoundingBox pt bbox zoom =
     Some (map (\<lambda>(x, y). \<lparr> tile_x = x, tile_y = y, tile_z = zoom \<rparr>)
               (List.product [min (fst topLeft) (fst bottomRight) .. max (fst topLeft) (fst bottomRight)]
                             [min (snd topLeft) (snd bottomRight) .. max (snd topLeft) (snd bottomRight)]))"
  using assms by (simp add: getTilesForBoundingBox_def Let_def concat_map_product)


lemma getTilesForBoundingBox_order:
  assumes tl: "pt (minLon bbox) (maxLat bbox) zoom = Some topLeft"
    and br: "pt (maxLon bbox) (minLat bbox) zoom = Some bottomRight"
  shows "(let minX = min (fst topLeft) (fst bottomRight);
              minY = min (snd topLeft) (snd bottomRight);
              maxY = max (snd topLeft) (snd bottomRight);
              H = nat (maxY - minY + 1)
          in \<exists>tiles. getTilesForBoundingBox pt bbox zoom = Some tiles
               \<and> (\<forall>k < length tiles.
                     tiles ! k = \<lparr> tile_x = minX + int (k div H), tile_y = minY + int (k mod H),
                                   tile_z = zoom \<rparr>))"
proof -
  define minX where "minX = min (fst topLeft) (fst bottomRight)"
  define maxX where "maxX = max (fst topLeft) (fst bottomRight)"
  define minY where "minY = min (snd topLeft) (snd bottomRight)"
  define maxY where "maxY = max (snd topLeft) (snd bottomRight)"
  define H where "H = nat (maxY - minY + 1)"
  let ?mk = "\<lambda>(x, y). \<lparr> tile_x = x, tile_y = y, tile_z = zoom \<rparr>"
  define tiles where "tiles = map ?mk (List.product [minX .. maxX] [minY .. maxY])"
  have ret: "getTilesForBoundingBox pt bbox zoom = Some tiles"
    unfolding tiles_def minX_def maxX_def minY_def maxY_def
    using tl br by (rule getTilesForBoundingBox_product)
  have lenY: "length [minY .. maxY] = H" by (simp add: H_def)
  have "tiles ! k = \<lparr> tile_x = minX + int (k div H), tile_y = minY + int (k mod H),
                       tile_z = zoom \<rparr>" if k: "k < length tiles" for k
  proof -
    from k have kp: "k < length [minX .. maxX] * length [minY .. maxY]"
      by (simp add: tiles_def)
    then have H0: "0 < H" unfolding lenY by (cases H) auto
    have kd: "k div H < length [minX .. maxX]"
      using kp H0 unfolding lenY by (simp add: less_mult_imp_div_less)
    have km: "k mod H < length [minY .. maxY]"
      using H0 unfolding lenY by simp
    have "List.product [minX .. maxX] [minY .. maxY] ! k
            = ([minX .. maxX] ! (k div H), [minY .. maxY] ! (k mod H))"
      using product_nth [OF kp] unfolding lenY .
    moreover have "[minX .. maxX] ! (k div H) = minX + int (k div H)"
      using kd by (intro nth_upto) simp
    moreover have "[minY .. maxY] ! (k mod H) = minY + int (k mod H)"
      using km by (intro nth_upto) simp
    ultimately show ?thesis
      using kp by (simp add: tiles_def)
  qed
  then show ?thesis
    unfolding Let_def minX_def [symmetric] minY_def [symmetric] maxY_def [symmetric]
      H_def [symmetric]
    using ret by blast
qed

lemma corners_finite:
  assumes "validBoundingBox bbox" and "-90 < minLat bbox" and "maxLat bbox < 90"
  shows "\<exists>topLeft bottomRight.
           pointToTile (minLon bbox) (maxLat bbox) zoom = Some topLeft
           \<and> pointToTile (maxLon bbox) (minLat bbox) zoom = Some bottomRight"
proof -
  from assms have "-90 < maxLat bbox" "minLat bbox < 90"
    by (auto simp: validBoundingBox_def)
  with assms show ?thesis
    using pointToTile_finite [of "maxLat bbox" "minLon bbox" zoom]
          pointToTile_finite [of "minLat bbox" "maxLon bbox" zoom]
    by blast
qed

lemma polarBox_valid: "validBoundingBox polarBox"
  by (simp add: validBoundingBox_def polarBox_def box_def)

lemma tiles_polarBox: "getTilesForBoundingBox pointToTile polarBox zoom = None"
  by (simp add: getTilesForBoundingBox_def polarBox_def box_def pointToTile_north_pole)



text \<open>
  C6, as amended. For every valid bounding box whose latitudes lie strictly between -90
  and 90, and every zoom, \<open>getTilesForBoundingBox\<close> returns the covering rectangle column by
  column: the outer loop runs over \<open>x\<close>, the inner loop over \<open>y\<close>. The \<open>k\<close>-th tile
  (counting from 0) is \<open>(minX + k div H, minY + k mod H)\<close> with \<open>H = maxY - minY + 1\<close>, so
  that all tiles of one column \<open>x\<close> come one after the other, before the next column.
\<close>

theorem getTilesForBoundingBox_column_major:
  assumes "validBoundingBox bbox" and "-90 < minLat bbox" and "maxLat bbox < 90"
  shows "\<exists>topLeft bottomRight tiles.
           pointToTile (minLon bbox) (maxLat bbox) zoom = Some topLeft
           \<and> pointToTile (maxLon bbox) (minLat bbox) zoom = Some bottomRight
           \<and> getTilesForBoundingBox pointToTile bbox zoom = Some tiles
           \<and> (let minX = min (fst topLeft) (fst bottomRight);
                    minY = min (snd topLeft) (snd bottomRight);
                    maxY = max (snd topLeft) (snd bottomRight);
                    H = nat (maxY - minY + 1)
                in \<forall>k < length tiles.
                     tiles ! k = \<lparr> tile_x = minX + int (k div H), tile_y = minY + int (k mod H),
                                   tile_z = zoom \<rparr>)"
proof -
  from corners_finite [OF assms, of zoom] obtain topLeft bottomRight where
    tl: "pointToTile (minLon bbox) (maxLat bbox) zoom = Some topLeft" and
    br: "pointToTile (maxLon bbox) (minLat bbox) zoom = Some bottomRight"
    by blast
  from getTilesForBoundingBox_order [where pt = pointToTile, OF tl br] tl br show ?thesis
    unfolding Let_def by blast
qed

subsection \<open>The four tiles around the origin\<close>

lemma smallBox_off_poles:
  "validBoundingBox smallBox" "-90 < minLat smallBox" "maxLat smallBox < 90"
  by (simp_all add: validBoundingBox_def smallBox_def box_def)

lemma corners_smallBox_0:
  "pointToTile (minLon smallBox) (maxLat smallBox) 0 = Some (0, 0)"
  "pointToTile (maxLon smallBox) (minLat smallBox) 0 = Some (0, 0)"
  by (simp_all add: smallBox_def box_def tile_west_north_0 tile_east_south_0)

lemma corners_smallBox_1:
  "pointToTile (minLon smallBox) (maxLat smallBox) (Suc 0) = Some (0, 0)"
  "pointToTile (maxLon smallBox) (minLat smallBox) (Suc 0) = Some (1, 1)"
  by (simp_all add: smallBox_def box_def tile_west_north_1 tile_east_south_1)

lemma tiles_smallBox_1:
  "getTilesForBoundingBox pointToTile smallBox (Suc 0)
     = Some [\<lparr> tile_x = 0, tile_y = 0, tile_z = Suc 0 \<rparr>, \<lparr> tile_x = 0, tile_y = 1, tile_z = Suc 0 \<rparr>,
             \<lparr> tile_x = 1, tile_y = 0, tile_z = Suc 0 \<rparr>, \<lparr> tile_x = 1, tile_y = 1, tile_z = Suc 0 \<rparr>]"
  by (simp add: getTilesForBoundingBox_def corners_smallBox_1 upto.simps)


text \<open>
  C6, the counterexample. At zoom 1 the valid box \<open>[-1, 1] x [-1, 1]\<close> covers the four
  tiles around the origin. Row-major order would put \<open>(1, 0)\<close> second; the list has
  \<open>(0, 1)\<close> there. And for the valid box \<open>[-10, 10] x [80, 90]\<close>, which touches the pole,
  there is no list and so no \<open>k\<close>-th element in any order.
\<close>

theorem getTilesForBoundingBox_not_row_major:
  "validBoundingBox polarBox
   \<and> getTilesForBoundingBox pointToTile polarBox (Suc 0) = None
   \<and> validBoundingBox smallBox
   \<and> pointToTile (minLon smallBox) (maxLat smallBox) (Suc 0) = Some (0, 0)
   \<and> pointToTile (maxLon smallBox) (minLat smallBox) (Suc 0) = Some (1, 1)
   \<and> getTilesForBoundingBox pointToTile smallBox (Suc 0)
       = Some [\<lparr> tile_x = 0, tile_y = 0, tile_z = Suc 0 \<rparr>, \<lparr> tile_x = 0, tile_y = 1, tile_z = Suc 0 \<rparr>,
               \<lparr> tile_x = 1, tile_y = 0, tile_z = Suc 0 \<rparr>, \<lparr> tile_x = 1, tile_y = 1, tile_z = Suc 0 \<rparr>]
   \<and> \<not> (let topLeft = (0, 0);
            bottomRight = (1, 1);
            minX = min (fst topLeft) (fst bottomRight);
            maxX = max (fst topLeft) (fst bottomRight);
            minY = min (snd topLeft) (snd bottomRight);
            W = nat (maxX - minX + 1);
            tiles = [\<lparr> tile_x = 0, tile_y = 0, tile_z = Suc 0 \<rparr>,
                     \<lparr> tile_x = 0, tile_y = 1, tile_z = Suc 0 \<rparr>,
                     \<lparr> tile_x = 1, tile_y = 0, tile_z = Suc 0 \<rparr>,
                     \<lparr> tile_x = 1, tile_y = 1, tile_z = Suc 0 \<rparr>]
        in \<forall>k < length tiles.
             tiles ! k = \<lparr> tile_x = minX + int (k mod W), tile_y = minY + int (k div W),
                           tile_z = Suc 0 \<rparr>)"
proof -
  let ?tiles = "[\<lparr> tile_x = 0, tile_y = 0, tile_z = Suc 0 \<rparr>,
                 \<lparr> tile_x = 0, tile_y = 1, tile_z = Suc 0 \<rparr>,
                 \<lparr> tile_x = 1, tile_y = 0, tile_z = Suc 0 \<rparr>,
                 \<lparr> tile_x = 1, tile_y = (1::int), tile_z = Suc 0 \<rparr>]"
  have "\<not> (\<forall>k < length ?tiles.
            ?tiles ! k = \<lparr> tile_x = 0 + int (k mod 2), tile_y = 0 + int (k div 2),
                          tile_z = Suc 0 \<rparr>)"
  proof
    assume "\<forall>k < length ?tiles.
              ?tiles ! k = \<lparr> tile_x = 0 + int (k mod 2), tile_y = 0 + int (k div 2),
                            tile_z = Suc 0 \<rparr>"
    moreover have "1 < length ?tiles" by simp
    ultimately have "?tiles ! 1 = \<lparr> tile_x = 0 + int (1 mod 2), tile_y = 0 + int (1 div 2),
                                   tile_z = Suc 0 \<rparr>"
      by blast
    then show False by simp
  qed
  then show ?thesis
    using tiles_smallBox_1 corners_smallBox_1 smallBox_off_poles(1) polarBox_valid
      tiles_polarBox [of "Suc 0"]
    by (simp add: Let_def)
qed

theorem getTilesForBoundingBox_column_major_witness:
  "validBoundingBox smallBox \<and> -90 < minLat smallBox \<and> maxLat smallBox < 90
   \<and> (\<exists>tiles. getTilesForBoundingBox pointToTile smallBox (Suc 0) = Some tiles
         \<and> length tiles = 4
         \<and> tiles ! 1 = \<lparr> tile_x = 0 + int (1 div 2), tile_y = 0 + int (1 mod 2), tile_z = Suc 0 \<rparr>
         \<and> tiles ! 2 = \<lparr> tile_x = 0 + int (2 div 2), tile_y = 0 + int (2 mod 2), tile_z = Suc 0 \<rparr>)"
proof -
  from getTilesForBoundingBox_column_major [OF smallBox_off_poles, of "Suc 0"]
  obtain tiles where
    t: "getTilesForBoundingBox pointToTile smallBox (Suc 0) = Some tiles" and
    k: "\<forall>k < length tiles.
          tiles ! k = \<lparr> tile_x = 0 + int (k div 2), tile_y = 0 + int (k mod 2), tile_z = Suc 0 \<rparr>"
    by (auto simp: corners_smallBox_1 Let_def)
  from t have len: "length tiles = 4" by (auto simp: tiles_smallBox_1)
  from k len have "tiles ! 1 = \<lparr> tile_x = 0 + int (1 div 2), tile_y = 0 + int (1 mod 2),
                                   tile_z = Suc 0 \<rparr>"
    and "tiles ! 2 = \<lparr> tile_x = 0 + int (2 div 2), tile_y = 0 + int (2 mod 2), tile_z = Suc 0 \<rparr>"
    by simp_all
  with t len show ?thesis
    using smallBox_off_poles by blast
qed

section \<open>The zoom level\<close>

lemma totalTiles_smallBox_0: "totalTiles pointToTile smallBox 0 = Some 1"
  by (simp add: totalTiles_def corners_smallBox_0)

lemma totalTiles_smallBox_1: "totalTiles pointToTile smallBox (Suc 0) = Some 4"
  by (simp add: totalTiles_def corners_smallBox_1)

lemma totalTiles_tallBox_0: "\<exists>tiles. totalTiles pointToTile tallBox 0 = Some tiles \<and> 2 \<le> tiles"
  using tile_west_far_north_0
  by (auto simp: totalTiles_def tallBox_def box_def tile_east_south_0)

lemma zoom_smallBox: "calculateZoomLevel pointToTile smallBox (Some 1) = 8"
proof -
  have "zoomScan pointToTile smallBox 1 1 0 = 0"
    by (subst zoomScan.simps) (simp add: withinBudget_def totalTiles_smallBox_1)
  then have "zoomScan pointToTile smallBox 1 0 10 = 0"
    by (subst zoomScan.simps) (simp add: withinBudget_def totalTiles_smallBox_0)
  then show ?thesis by (simp add: calculateZoomLevel_def)
qed

lemma zoom_tallBox: "calculateZoomLevel pointToTile tallBox (Some 1) = 10"
proof -
  have "\<not> withinBudget pointToTile tallBox 1 0"
    using totalTiles_tallBox_0 by (auto simp: withinBudget_def)
  then have "zoomScan pointToTile tallBox 1 0 10 = 10"
    by (subst zoomScan.simps) simp
  then show ?thesis by (simp add: calculateZoomLevel_def)
qed

text \<open>
  C3, the counterexample. The scan starts from \<open>zoom = 10\<close> and returns it when the very
  first step, zoom 0, already exceeds the budget. With \<open>maxTiles = 1\<close> the box
  \<open>[-1, 1] x [-1, 89]\<close> spans two rows at zoom 0 (latitude 89 lies above the square
  mercator world, in row -1) and gets zoom 10. The box \<open>[-1, 1] x [-1, 1]\<close> inside it
  fits one tile at zoom 0, exceeds the budget at zoom 1 and gets \<open>max 8 0 = 8\<close>.
\<close>

theorem zoom_not_monotone:
  "validBoundingBox smallBox \<and> validBoundingBox tallBox \<and> contained smallBox tallBox
   \<and> calculateZoomLevel pointToTile tallBox (Some 1) = 10
   \<and> calculateZoomLevel pointToTile smallBox (Some 1) = 8
   \<and> \<not> calculateZoomLevel pointToTile tallBox (Some 1)
         \<le> calculateZoomLevel pointToTile smallBox (Some 1)"
  by (simp add: zoom_smallBox zoom_tallBox)
     (simp add: validBoundingBox_def contained_def smallBox_def tallBox_def box_def)

lemma zoomScan_result:
  "zoomScan pt bbox maxTiles z zoom = zoom \<or> z \<le> zoomScan pt bbox maxTiles z zoom"
proof (induction pt bbox maxTiles z zoom rule: zoomScan.induct)
  case (1 pt bbox maxTiles z zoom)
  show ?case
  proof (cases "z \<le> 18 \<and> withinBudget pt bbox maxTiles z")
    case True
    with 1 have "zoomScan pt bbox maxTiles (z + 1) z = z
                 \<or> z + 1 \<le> zoomScan pt bbox maxTiles (z + 1) z"
      by simp
    moreover have "zoomScan pt bbox maxTiles z zoom = zoomScan pt bbox maxTiles (z + 1) z"
      using True by (subst zoomScan.simps) simp
    ultimately show ?thesis by auto
  next
    case False
    then have "zoomScan pt bbox maxTiles z zoom = zoom"
      by (subst zoomScan.simps) auto
    then show ?thesis by simp
  qed
qed

lemma zoomScan_mono:
  "(\<And>z. withinBudget pt b' maxTiles z \<Longrightarrow> withinBudget pt b maxTiles z) \<Longrightarrow>
   zoom' \<le> zoom \<Longrightarrow> zoom' \<le> z \<Longrightarrow>
   zoomScan pt b' maxTiles z zoom' \<le> zoomScan pt b maxTiles z zoom"
proof (induction pt b' maxTiles z zoom' arbitrary: zoom rule: zoomScan.induct)
  case (1 pt b' maxTiles z zoom')
  note tiles = "1.prems"(1)
  show ?case
  proof (cases "z \<le> 18 \<and> withinBudget pt b' maxTiles z")
    case True
    then have t: "withinBudget pt b maxTiles z" using tiles [of z] by simp
    have "zoomScan pt b' maxTiles z zoom' = zoomScan pt b' maxTiles (z + 1) z"
      using True by (subst zoomScan.simps) simp
    moreover have "zoomScan pt b maxTiles z zoom = zoomScan pt b maxTiles (z + 1) z"
      using True t by (subst zoomScan.simps) simp
    moreover have "zoomScan pt b' maxTiles (z + 1) z \<le> zoomScan pt b maxTiles (z + 1) z"
      using True tiles by (intro "1.IH") simp_all
    ultimately show ?thesis by simp
  next
    case False
    then have "zoomScan pt b' maxTiles z zoom' = zoom'"
      by (subst zoomScan.simps) auto
    moreover have "zoomScan pt b maxTiles z zoom = zoom \<or> z \<le> zoomScan pt b maxTiles z zoom"
      by (rule zoomScan_result)
    ultimately show ?thesis using "1.prems" by auto
  qed
qed

lemma totalTiles_contained:
  assumes "validBoundingBox b" and "validBoundingBox b'" and "contained b b'"
    and "-90 < minLat b'" and "maxLat b' < 90" and "maxLon b' < 180"
  shows "\<exists>tiles tiles'. totalTiles pointToTile b z = Some tiles
           \<and> totalTiles pointToTile b' z = Some tiles' \<and> tiles \<le> tiles'"
proof -
  from assms have lon: "-180 \<le> minLon b'" "minLon b' \<le> minLon b" "minLon b < maxLon b"
      "maxLon b \<le> maxLon b'" "maxLon b' < 180"
    and lat: "-90 < minLat b'" "minLat b' \<le> minLat b" "minLat b < maxLat b"
      "maxLat b \<le> maxLat b'" "maxLat b' < 90"
    by (auto simp: validBoundingBox_def contained_def)
  define col where "col lon = \<lfloor>(2::real) ^ z * (lon / 360 + 0.5)\<rfloor>" for lon
  define row where "row lat = \<lfloor>(2::real) ^ z * (0.5 - mercatorOffset lat)\<rfloor>" for lat
  have col_mono: "col u \<le> col v" if "u \<le> v" for u v
    unfolding col_def using that by (intro floor_mono) simp
  have row_anti: "row v \<le> row u" if "-90 < u" "u \<le> v" "v < 90" for u v
  proof -
    have "mercatorOffset u \<le> mercatorOffset v" using that by (rule mercatorOffset_mono)
    then show ?thesis unfolding row_def by (intro floor_mono) simp
  qed
  have tl: "pointToTile (minLon b) (maxLat b) z = Some (col (minLon b), row (maxLat b))"
    unfolding col_def row_def using lon lat by (intro pointToTile_eq) simp_all
  have br: "pointToTile (maxLon b) (minLat b) z = Some (col (maxLon b), row (minLat b))"
    unfolding col_def row_def using lon lat by (intro pointToTile_eq) simp_all
  have tl': "pointToTile (minLon b') (maxLat b') z = Some (col (minLon b'), row (maxLat b'))"
    unfolding col_def row_def using lon lat by (intro pointToTile_eq) simp_all
  have br': "pointToTile (maxLon b') (minLat b') z = Some (col (maxLon b'), row (minLat b'))"
    unfolding col_def row_def using lon lat by (intro pointToTile_eq) simp_all
  have x: "col (minLon b') \<le> col (minLon b)" "col (minLon b) \<le> col (maxLon b)"
      "col (maxLon b) \<le> col (maxLon b')"
    using lon by (simp_all add: col_mono)
  have y: "row (maxLat b') \<le> row (maxLat b)" "row (maxLat b) \<le> row (minLat b)"
      "row (minLat b) \<le> row (minLat b')"
    using lat by (simp_all add: row_anti)
  have "(\<bar>col (maxLon b) - col (minLon b)\<bar> + 1) * (\<bar>row (minLat b) - row (maxLat b)\<bar> + 1)
          \<le> (\<bar>col (maxLon b') - col (minLon b')\<bar> + 1)
              * (\<bar>row (minLat b') - row (maxLat b')\<bar> + 1)"
    using x y by (intro mult_mono) simp_all
  then show ?thesis
    by (simp add: totalTiles_def tl br tl' br')
qed

lemma calculateZoomLevel_range:
  "8 \<le> calculateZoomLevel pt bbox maxTilesArg \<and> calculateZoomLevel pt bbox maxTilesArg \<le> 15"
  by (simp add: calculateZoomLevel_def Let_def)

text \<open>
  C3, as amended. \<open>calculateZoomLevel\<close> returns a value in \<open>[8, 15]\<close> for every bounding box
  and every \<open>maxTiles\<close>, the default included. For two valid boxes, \<open>b\<close> inside \<open>b'\<close>, with
  the latitudes strictly between -90 and 90 and the longitudes below 180 (where the tile
  indices are finite and not wrapped), and with the same \<open>maxTiles\<close>: if \<open>b'\<close> is within the
  budget at zoom 0, so that its scan does not stop at the first step and fall back to the
  initial zoom 10, then the zoom of \<open>b'\<close> is at most the zoom of \<open>b\<close>.
\<close>

theorem calculateZoomLevel_range_and_monotone:
  "8 \<le> calculateZoomLevel pt bbox maxTilesArg
   \<and> calculateZoomLevel pt bbox maxTilesArg \<le> 15
   \<and> (validBoundingBox b \<and> validBoundingBox b' \<and> contained b b'
        \<and> -90 < minLat b' \<and> maxLat b' < 90 \<and> maxLon b' < 180
        \<and> withinBudget pointToTile b' (case maxTilesArg of None \<Rightarrow> 16 | Some m \<Rightarrow> m) 0
      \<longrightarrow> calculateZoomLevel pointToTile b' maxTilesArg
            \<le> calculateZoomLevel pointToTile b maxTilesArg)"
proof -
  have "calculateZoomLevel pointToTile b' maxTilesArg
          \<le> calculateZoomLevel pointToTile b maxTilesArg"
    if v: "validBoundingBox b" "validBoundingBox b'" "contained b b'"
      "-90 < minLat b'" "maxLat b' < 90" "maxLon b' < 180"
      and first: "withinBudget pointToTile b' (case maxTilesArg of None \<Rightarrow> 16 | Some m \<Rightarrow> m) 0"
  proof -
    define maxTiles where "maxTiles = (case maxTilesArg of None \<Rightarrow> 16 | Some m \<Rightarrow> m)"
    have tiles: "withinBudget pointToTile b maxTiles z"
      if "withinBudget pointToTile b' maxTiles z" for z
      using totalTiles_contained [OF v, of z] that by (auto simp: withinBudget_def)
    have f': "withinBudget pointToTile b' maxTiles 0"
      using first by (simp add: maxTiles_def)
    then have f: "withinBudget pointToTile b maxTiles 0" by (rule tiles)
    have "zoomScan pointToTile b' maxTiles 0 10 = zoomScan pointToTile b' maxTiles (0 + 1) 0"
      using f' by (subst zoomScan.simps) simp
    moreover have "zoomScan pointToTile b maxTiles 0 10 = zoomScan pointToTile b maxTiles (0 + 1) 0"
      using f by (subst zoomScan.simps) simp
    moreover have "zoomScan pointToTile b' maxTiles (0 + 1) 0
                     \<le> zoomScan pointToTile b maxTiles (0 + 1) 0"
      using tiles by (intro zoomScan_mono) simp_all
    ultimately have "zoomScan pointToTile b' maxTiles 0 10 \<le> zoomScan pointToTile b maxTiles 0 10"
      by simp
    then show ?thesis
      by (simp add: calculateZoomLevel_def Let_def maxTiles_def [symmetric])
  qed
  then show ?thesis
    using calculateZoomLevel_range [of pt bbox maxTilesArg] by blast
qed

theorem calculateZoomLevel_range_and_monotone_witness:
  "validBoundingBox innerBox \<and> validBoundingBox smallBox \<and> contained innerBox smallBox
   \<and> -90 < minLat smallBox \<and> maxLat smallBox < 90 \<and> maxLon smallBox < 180
   \<and> withinBudget pointToTile smallBox 16 0
   \<and> 8 \<le> calculateZoomLevel pointToTile smallBox None
   \<and> calculateZoomLevel pointToTile smallBox None \<le> 15
   \<and> calculateZoomLevel pointToTile smallBox None \<le> calculateZoomLevel pointToTile innerBox None"
proof -
  have h: "validBoundingBox innerBox \<and> validBoundingBox smallBox \<and> contained innerBox smallBox
   \<and> -90 < minLat smallBox \<and> maxLat smallBox < 90 \<and> maxLon smallBox < 180
   \<and> withinBudget pointToTile smallBox (case None of None \<Rightarrow> 16 | Some m \<Rightarrow> m) 0"
    by (simp add: withinBudget_def totalTiles_smallBox_0)
       (simp add: validBoundingBox_def contained_def innerBox_def smallBox_def box_def)
  show ?thesis
    using calculateZoomLevel_range_and_monotone
            [of pointToTile smallBox None innerBox smallBox] h
    by simp
qed

subsection \<open>The longitude 180\<close>

lemma rows_tiny:
  assumes "z \<le> 18"
  shows "\<bar>\<lfloor>2 ^ z * (0.5 - mercatorOffset (-(1/4000)))\<rfloor>
          - \<lfloor>2 ^ z * (0.5 - mercatorOffset (1/4000))\<rfloor>\<bar> \<le> 1"
proof -
  define t where "t = mercatorOffset (1/4000)"
  have t: "0 < t" "t * 2 ^ 19 < 1" using mercatorOffset_tiny by (simp_all add: t_def)
  have tm: "mercatorOffset (-(1/4000)) = - t"
    unfolding t_def by (rule mercatorOffset_minus) simp_all
  have "(2::real) ^ (z + 1) \<le> 2 ^ 19" using assms(1) by (intro power_increasing) simp_all
  then have "t * 2 ^ (z + 1) \<le> t * 2 ^ 19" using t(1) by simp
  with t(2) have d: "2 ^ z * (0.5 + t) - 2 ^ z * (0.5 - t) < 1"
    by (simp add: algebra_simps)
  have d0: "2 ^ z * (0.5 - t) \<le> 2 ^ z * (0.5 + t)" using t(1) by simp
  have "\<bar>\<lfloor>2 ^ z * (0.5 + t)\<rfloor> - \<lfloor>2 ^ z * (0.5 - t)\<rfloor>\<bar> \<le> 1"
    using d d0 by linarith
  then show ?thesis
    by (simp add: tm t_def [symmetric])
qed

lemma withinBudget_wideBox:
  assumes "z \<le> 18"
  shows "withinBudget pointToTile wideBox 16 z"
proof -
  have tl: "pointToTile (-180) (1/4000) z
              = Some (0, \<lfloor>2 ^ z * (0.5 - mercatorOffset (1/4000))\<rfloor>)"
    by (simp add: pointToTile_eq)
  have br: "pointToTile 180 (-(1/4000)) z
              = Some (0, \<lfloor>2 ^ z * (0.5 - mercatorOffset (-(1/4000)))\<rfloor>)"
    by (rule pointToTile_180) simp_all
  show ?thesis
    using rows_tiny [OF assms]
    by (simp add: withinBudget_def totalTiles_def wideBox_def box_def tl br)
qed

lemma zoomScan_full:
  "(\<And>z. z \<le> 18 \<Longrightarrow> withinBudget pt bbox maxTiles z) \<Longrightarrow> z \<le> 18 \<Longrightarrow>
   zoomScan pt bbox maxTiles z zoom = 18"
proof (induction pt bbox maxTiles z zoom rule: zoomScan.induct)
  case (1 pt bbox maxTiles z zoom)
  have t: "withinBudget pt bbox maxTiles z" using "1.prems" by simp
  show ?case
  proof (cases "z = 18")
    case True
    have "zoomScan pt bbox maxTiles 19 18 = 18"
      by (subst zoomScan.simps) simp
    then show ?thesis
      using True t by (subst zoomScan.simps) simp
  next
    case False
    with "1.prems" have z: "z + 1 \<le> 18" by simp
    have "zoomScan pt bbox maxTiles (z + 1) z = 18"
      using "1.prems" t z by (intro "1.IH") simp_all
    then show ?thesis
      using "1.prems"(2) t by (subst zoomScan.simps) simp
  qed
qed

lemma zoomScan_stops:
  "z \<le> zs \<Longrightarrow> zs \<le> 18 \<Longrightarrow> \<not> withinBudget pt bbox maxTiles zs \<Longrightarrow> zoom < zs \<Longrightarrow>
   zoomScan pt bbox maxTiles z zoom < zs"
proof (induction pt bbox maxTiles z zoom rule: zoomScan.induct)
  case (1 pt bbox maxTiles z zoom)
  show ?case
  proof (cases "z \<le> 18 \<and> withinBudget pt bbox maxTiles z")
    case True
    with "1.prems" have "z \<noteq> zs" by auto
    with "1.prems" have z: "z + 1 \<le> zs" "z < zs" by simp_all
    have "zoomScan pt bbox maxTiles (z + 1) z < zs"
      using True z "1.prems" by (intro "1.IH") simp_all
    then show ?thesis
      using True by (subst zoomScan.simps) simp
  next
    case False
    then have "zoomScan pt bbox maxTiles z zoom = zoom"
      by (subst zoomScan.simps) auto
    with "1.prems" show ?thesis by simp
  qed
qed

lemma zoom_wideBox: "calculateZoomLevel pointToTile wideBox None = 15"
proof -
  have "zoomScan pointToTile wideBox 16 0 10 = 18"
    using withinBudget_wideBox by (intro zoomScan_full) force+
  then show ?thesis by (simp add: calculateZoomLevel_def)
qed

lemma withinBudget_narrowBox_0: "withinBudget pointToTile narrowBox 16 0"
proof -
  have tl: "pointToTile (-170) (1/4000) 0
              = Some (0, \<lfloor>2 ^ 0 * (0.5 - mercatorOffset (1/4000))\<rfloor>)"
    by (simp add: pointToTile_eq)
  have br: "pointToTile 170 (-(1/4000)) 0
              = Some (0, \<lfloor>2 ^ 0 * (0.5 - mercatorOffset (-(1/4000)))\<rfloor>)"
    by (simp add: pointToTile_eq)
  show ?thesis
    using rows_tiny [of 0]
    by (simp add: withinBudget_def totalTiles_def narrowBox_def box_def tl br)
qed

lemma withinBudget_narrowBox_5: "\<not> withinBudget pointToTile narrowBox 16 5"
proof -
  define d where "d = \<bar>\<lfloor>2 ^ 5 * (0.5 - mercatorOffset (-(1/4000)))\<rfloor>
                        - \<lfloor>2 ^ 5 * (0.5 - mercatorOffset (1/4000))\<rfloor>\<bar>"
  have tl: "pointToTile (-170) (1/4000) 5
              = Some (0, \<lfloor>2 ^ 5 * (0.5 - mercatorOffset (1/4000))\<rfloor>)"
    by (simp add: pointToTile_eq)
  have br: "pointToTile 170 (-(1/4000)) 5
              = Some (31, \<lfloor>2 ^ 5 * (0.5 - mercatorOffset (-(1/4000)))\<rfloor>)"
    by (simp add: pointToTile_eq)
  have "totalTiles pointToTile narrowBox 5 = Some (32 * (d + 1))"
    by (simp add: totalTiles_def narrowBox_def box_def tl br d_def)
  moreover have "0 \<le> d" by (simp add: d_def)
  ultimately show ?thesis by (simp add: withinBudget_def)
qed

lemma zoom_narrowBox: "calculateZoomLevel pointToTile narrowBox None = 8"
proof -
  have "zoomScan pointToTile narrowBox 16 0 10 = zoomScan pointToTile narrowBox 16 (0 + 1) 0"
    using withinBudget_narrowBox_0 by (subst zoomScan.simps) simp
  moreover have "zoomScan pointToTile narrowBox 16 (0 + 1) 0 < 5"
    using withinBudget_narrowBox_5 by (intro zoomScan_stops) simp_all
  ultimately have "zoomScan pointToTile narrowBox 16 0 10 < 5" by simp
  then show ?thesis by (simp add: calculateZoomLevel_def)
qed

text \<open>
  A second instance, with the default budget of 16 tiles and inside the square mercator
  world. The longitude 180 wraps to column 0, so the box \<open>[-180, 180] x [-1/4000, 1/4000]\<close>
  spans one column and at most two rows at every zoom up to 18: its zoom is 15. The box
  \<open>[-170, 170] x [-1/4000, 1/4000]\<close> inside it spans 32 columns at zoom 5: its zoom is 8.
\<close>

lemma zoom_not_monotone_at_180:
  "validBoundingBox narrowBox \<and> validBoundingBox wideBox \<and> contained narrowBox wideBox
   \<and> calculateZoomLevel pointToTile wideBox None = 15
   \<and> calculateZoomLevel pointToTile narrowBox None = 8"
  by (simp add: zoom_narrowBox zoom_wideBox)
     (simp add: validBoundingBox_def contained_def narrowBox_def wideBox_def box_def)

text \<open>
  At a pole the scan stops at zoom 0, whatever the budget: \<open>totalTiles\<close> is not finite
  there, and the result is the initial zoom 10.
\<close>

lemma zoom_polarBox: "calculateZoomLevel pointToTile polarBox maxTilesArg = 10"
proof -
  have "\<not> withinBudget pointToTile polarBox maxTiles 0" for maxTiles
    by (simp add: withinBudget_def totalTiles_def polarBox_def box_def pointToTile_north_pole)
  then have "zoomScan pointToTile polarBox maxTiles 0 10 = 10" for maxTiles
    by (subst zoomScan.simps) simp
  then show ?thesis by (simp add: calculateZoomLevel_def Let_def)
qed

section \<open>The bilinear sampler and the scale\<close>

lemma sampleHeight_inside:
  assumes "length heightField = W * H" and "0 \<le> x" and "x < int W" and "0 \<le> y" and "y < int H"
  shows "sampleHeight heightField W H (real_of_int x) (real_of_int y)
           = Some (heightField ! (nat y * W + nat x))"
proof -
  have "nat y < H" "nat x < W" using assms by auto
  then have "nat y * W + nat x < W * H" by (rule raster_index_less)
  moreover have "nat (y * int W + x) = nat y * W + nat x"
    using assms by (simp add: nat_add_distrib nat_mult_distrib)
  ultimately show ?thesis
    using assms by (simp add: sampleHeight_def Let_def min_def max_def)
qed

lemma elevationMeters_first:
  assumes len: "length heightField = W * H" and W: "1 \<le> W" and H: "1 \<le> H" and s: "1 \<le> segments"
  shows "elevationMeters heightField W H segments 0 = Some (heightField ! 0)"
proof -
  let ?x1 = "min (0 + 1) (int W - 1)" and ?y1 = "min (0 + 1) (int H - 1)"
  have x1: "0 \<le> ?x1" "?x1 < int W" and y1: "0 \<le> ?y1" "?y1 < int H"
    using W H by auto
  have z: "(0::int) \<le> 0" "0 < int W" "0 < int H" using W H by auto
  note sm = sampleHeight_inside [OF len]
  have "sampleHeight heightField W H (real_of_int 0) (real_of_int 0) = Some (heightField ! 0)"
    using sm [OF z(1) z(2) z(1) z(3)] by simp
  moreover have "\<exists>h. sampleHeight heightField W H (real_of_int ?x1) (real_of_int 0) = Some h"
    using sm [OF x1 z(1) z(3)] by blast
  moreover have "\<exists>h. sampleHeight heightField W H (real_of_int 0) (real_of_int ?y1) = Some h"
    using sm [OF z(1) z(2) y1] by blast
  moreover have "\<exists>h. sampleHeight heightField W H (real_of_int ?x1) (real_of_int ?y1) = Some h"
    using sm [OF x1 y1] by blast
  ultimately show ?thesis
    using s by (auto simp: elevationMeters_def Let_def)
qed

lemma elevationMeters_last:
  assumes len: "length heightField = W * H" and W: "1 \<le> W" and H: "1 \<le> H" and s: "1 \<le> segments"
  shows "elevationMeters heightField W H segments (segments * (segments + 1) + segments)
           = Some (heightField ! ((H - 1) * W + (W - 1)))"
proof -
  let ?i = "segments * (segments + 1) + segments"
  have "?i mod (segments + 1) = segments mod (segments + 1)" by (rule mod_mult_self3)
  then have vx: "?i mod (segments + 1) = segments" by simp
  have "?i div (segments + 1) = segments + segments div (segments + 1)"
    by (rule div_mult_self3) simp
  then have vy: "?i div (segments + 1) = segments" by simp
  have u: "real segments / real segments = 1" using s by simp
  let ?x = "int W - 1" and ?y = "int H - 1"
  have b: "0 \<le> ?x" "?x < int W" "0 \<le> ?y" "?y < int H" using W H by auto
  have "sampleHeight heightField W H (real_of_int ?x) (real_of_int ?y)
          = Some (heightField ! (nat ?y * W + nat ?x))"
    using len b by (rule sampleHeight_inside)
  moreover have "nat ?y = H - 1" "nat ?x = W - 1" by auto
  ultimately have sm: "sampleHeight heightField W H (real_of_int ?x) (real_of_int ?y)
          = Some (heightField ! ((H - 1) * W + (W - 1)))" by simp
  have fl: "\<lfloor>real W - 1\<rfloor> = ?x" "\<lfloor>real H - 1\<rfloor> = ?y"
    by linarith+
  have mn: "min (?x + 1) ?x = ?x" "min (?y + 1) ?y = ?y" by simp_all
  have rx: "real W - 1 - real_of_int ?x = 0" "real H - 1 - real_of_int ?y = 0"
    by simp_all
  show ?thesis
    using s unfolding elevationMeters_def vx vy u Let_def
    by (simp only: mult_1 fl mn rx sm) simp
qed

lemma resolution_pos: "1 \<le> resolution meshResolution"
  by (cases meshResolution) simp_all

text \<open>
  C7. For a height field of \<open>W * H\<close> cells, \<open>W\<close> and \<open>H\<close> at least 1, and every mesh
  resolution, the bilinear sampler returns exactly \<open>heightField[0]\<close> at the first vertex
  (\<open>u = 0\<close>, \<open>v = 0\<close>) and exactly the last cell, \<open>heightField[(H-1)*W + (W-1)]\<close>, at the last
  vertex (\<open>u = 1\<close>, \<open>v = 1\<close>), before any scaling.
\<close>

theorem bilinear_sampler_corners:
  assumes "length heightField = W * H" and "1 \<le> W" and "1 \<le> H"
  shows "elevationMeters heightField W H (resolution meshResolution) 0 = Some (heightField ! 0)
       \<and> elevationMeters heightField W H (resolution meshResolution)
            (resolution meshResolution * (resolution meshResolution + 1)
               + resolution meshResolution)
          = Some (heightField ! ((H - 1) * W + (W - 1)))
       \<and> (H - 1) * W + (W - 1) = length heightField - 1"
proof -
  have "(H - 1) * W + (W - 1) = W * H - 1"
    using assms(2,3) by (cases H; cases W) (simp_all add: algebra_simps)
  then show ?thesis
    using elevationMeters_first [OF assms resolution_pos]
          elevationMeters_last [OF assms resolution_pos] assms(1)
    by simp
qed

theorem bilinear_sampler_corners_witness:
  "length rampField = 2 * 2 \<and> (1::nat) \<le> 2
   \<and> elevationMeters rampField 2 2 (resolution Res128) 0 = Some 0
   \<and> elevationMeters rampField 2 2 (resolution Res128)
        (resolution Res128 * (resolution Res128 + 1) + resolution Res128) = Some 1000"
proof -
  have len: "length rampField = 2 * 2" by (simp add: rampField_def)
  have two: "(1::nat) \<le> 2" by simp
  show ?thesis
    using bilinear_sampler_corners [OF len two two, of Res128] len
    by (simp add: rampField_def)
qed

lemma upt_4: "[0 ..< 2 * 2] = [0, 1, 2, 3]"
  by code_simp

lemma decode_rampRaster: "decodeHeights rampRaster 2 2 = rampField"
  unfolding decodeHeights_def upt_4 rampField_def
  by (simp add: rampRaster_def channel_def terrainRGBToHeight_def ABSOLUTE_MAX_HEIGHT_def Let_def)

lemma readable_rampRaster: "readable rampRaster (2 * 2)"
  by (simp add: readable_def rampRaster_def)

lemma hampelOut_rampField: "map (hampelOut rampField 2 2) [0 ..< 2 * 2] = rampField"
  by code_simp

lemma filter_rampField:
  assumes "readable imageData (2 * 2)" and "decodeHeights imageData 2 2 = rampField"
  shows "applyTerrainFilter imageData 2 2 filterMethod = Some rampField"
proof (cases filterMethod)
  case FilterNone
  with assms show ?thesis by (simp add: applyNoFilter_def)
next
  case Capping
  with assms show ?thesis
    by (simp add: applyCappingFilter_def) (simp add: rampField_def MAX_SPIKE_HEIGHT_def)
next
  case Median
  with applyHampelFilter_pointwise [OF assms(1)] show ?thesis
    by (simp only: applyTerrainFilter.simps assms(2) hampelOut_rampField)
qed

lemma bounds_rampField: "elevationBounds rampField = Some (0, 1000)"
  by (simp add: elevationBounds_def rampField_def)

text \<open>
  C4. On a 2x2 raster that decodes to \<open>[0, 0, 0, 1000]\<close>, with \<open>useRealScale = false\<close>,
  \<open>heightExaggeration = 1\<close> and \<open>planeWidth = 10\<close>, whatever the filter method and the mesh
  resolution: the filtered field is \<open>[0, 0, 0, 1000]\<close>, \<open>baseScale\<close> is
  \<open>10 * 0.25 / 1000 = 0.0025\<close>, and the vertex with \<open>u = 1\<close>, \<open>v = 1\<close>, which samples the
  maximum, is displaced by \<open>(1000 - 0) * 0.0025 * 1 = 2.5\<close>.
\<close>

theorem normalized_scale_end_to_end:
  assumes "readable imageData (2 * 2)" and "decodeHeights imageData 2 2 = rampField"
  shows "applyTerrainFilter imageData 2 2 filterMethod = Some rampField
       \<and> elevationBounds rampField = Some (0, 1000)
       \<and> planeWidth = 10
       \<and> baseScaleOf False horizontalDistanceMeters (elevationBounds rampField) = 10 * 0.25 / 1000
       \<and> baseScaleOf False horizontalDistanceMeters (elevationBounds rampField) = 0.0025
       \<and> (\<exists>positions.
             displaceTerrain imageData 2 2 filterMethod meshResolution False 1
                 horizontalDistanceMeters = Some positions
             \<and> length positions = (resolution meshResolution + 1) * (resolution meshResolution + 1)
             \<and> positions ! (resolution meshResolution * (resolution meshResolution + 1)
                              + resolution meshResolution)
                 = Some ((1000 - 0) * 0.0025 * 1)
             \<and> (1000 - 0) * 0.0025 * 1 = (2.5::real))"
proof -
  let ?s = "resolution meshResolution"
  let ?last = "?s * (?s + 1) + ?s"
  have f: "applyTerrainFilter imageData 2 2 filterMethod = Some rampField"
    using assms by (rule filter_rampField)
  have scale: "baseScaleOf False horizontalDistanceMeters (elevationBounds rampField) = 0.0025"
    by (simp add: bounds_rampField baseScaleOf_def planeWidth_def)
  have len: "length rampField = 2 * 2" by (simp add: rampField_def)
  have two: "(1::nat) \<le> 2" by simp
  have "elevationMeters rampField 2 2 ?s ?last = Some (rampField ! ((2 - 1) * 2 + (2 - 1)))"
    using elevationMeters_last [OF len two two resolution_pos] .
  then have m: "elevationMeters rampField 2 2 ?s ?last = Some 1000"
    by (simp add: rampField_def)
  have scale': "baseScaleOf False horizontalDistanceMeters (Some (0, 1000)) = 0.0025"
    using scale by (simp only: bounds_rampField)
  have v: "vertexElevation rampField 2 2 ?s False 1 horizontalDistanceMeters ?last = Some 2.5"
    unfolding vertexElevation_def Let_def m bounds_rampField scale' by simp
  have lt: "?last < (?s + 1) * (?s + 1)" by simp
  let ?positions = "map (vertexElevation rampField 2 2 ?s False 1 horizontalDistanceMeters)
                        [0 ..< (?s + 1) * (?s + 1)]"
  have d: "displaceTerrain imageData 2 2 filterMethod meshResolution False 1
             horizontalDistanceMeters = Some ?positions"
    by (simp add: displaceTerrain_def Let_def f)
  have p: "?positions ! ?last = Some 2.5"
    using lt v by (simp only: nth_map length_upt nth_upt minus_nat.diff_0 add_0)
  have n: "(1000 - 0) * 0.0025 * 1 = (2.5::real)" by simp
  have "\<exists>positions.
          displaceTerrain imageData 2 2 filterMethod meshResolution False 1
              horizontalDistanceMeters = Some positions
          \<and> length positions = (?s + 1) * (?s + 1)
          \<and> positions ! ?last = Some ((1000 - 0) * 0.0025 * 1)
          \<and> (1000 - 0) * 0.0025 * 1 = (2.5::real)"
    using d p by (intro exI [of _ ?positions]) (simp only: n, simp)
  moreover have "(10 * 0.25 / 1000 :: real) = 0.0025" by simp
  then have "baseScaleOf False horizontalDistanceMeters (elevationBounds rampField)
                   = 10 * 0.25 / 1000"
    using scale by (simp only:)
  moreover have "planeWidth = 10" by (rule planeWidth_def)
  ultimately show ?thesis
    using f scale bounds_rampField by blast
qed

theorem normalized_scale_end_to_end_witness:
  "readable rampRaster (2 * 2) \<and> decodeHeights rampRaster 2 2 = rampField
   \<and> applyTerrainFilter rampRaster 2 2 Median = Some rampField
   \<and> baseScaleOf False 1000 (elevationBounds rampField) = 0.0025
   \<and> (\<exists>positions. displaceTerrain rampRaster 2 2 Median Res128 False 1 1000 = Some positions
         \<and> length positions = 129 * 129
         \<and> positions ! (128 * 129 + 128) = Some 2.5)"
proof -
  note t = normalized_scale_end_to_end
             [OF readable_rampRaster decode_rampRaster, of Median 1000 Res128]
  from t obtain positions where
    "displaceTerrain rampRaster 2 2 Median Res128 False 1 1000 = Some positions"
    "length positions = (resolution Res128 + 1) * (resolution Res128 + 1)"
    "positions ! (resolution Res128 * (resolution Res128 + 1) + resolution Res128)
       = Some ((1000 - 0) * 0.0025 * 1)"
    by blast
  then have "\<exists>positions. displaceTerrain rampRaster 2 2 Median Res128 False 1 1000 = Some positions
         \<and> length positions = 129 * 129
         \<and> positions ! (128 * 129 + 128) = Some 2.5"
    by simp
  moreover from t have "applyTerrainFilter rampRaster 2 2 Median = Some rampField"
    and "baseScaleOf False 1000 (elevationBounds rampField) = 0.0025"
    by blast+
  ultimately show ?thesis
    using readable_rampRaster decode_rampRaster by blast
qed

section \<open>The stitcher\<close>

text \<open>
  C8. With an empty tile list \<open>stitchTiles\<close> fails with the error "No tiles provided" and
  has done nothing before: the trace is returned as it was, with no canvas created and no
  tile fetched. With a non-empty list that branch is not taken: the call returns a result.
\<close>

theorem stitchTiles_empty_fails:
  "stitchTiles tileToBBOX loads [] bbox style token trace
     = (Inl (Error ''No tiles provided''), trace)
   \<and> (tiles \<noteq> [] \<longrightarrow>
        (\<exists>result trace'.
           stitchTiles tileToBBOX loads tiles bbox style token trace = (Inr result, trace')
           \<and> fst (stitchTiles tileToBBOX loads tiles bbox style token trace)
               \<noteq> Inl (Error ''No tiles provided'')))"
  by (simp add: stitchTiles_def Let_def)

lemma stitch_one_tile:
  "stitchTiles (\<lambda>t. smallBox) (\<lambda>t. True) [someTile] innerBox TerrainRGB ''token'' []
     = (Inr \<lparr> canvasWidth = 256, canvasHeight = 256, hasImageData = True \<rparr>,
        [CreateCanvas 512 512, FetchTile someTile TerrainRGB ''token'', DrawImage 0 0 512 512,
         CreateCanvas 256 256, DrawCropped 128 128 256 256 256 256, GetImageData 256 256])"
  by (simp add: stitchTiles_def loadTile_def indexOf_def Let_def someTile_def smallBox_def
        innerBox_def box_def)

theorem stitchTiles_empty_fails_witness:
  "[someTile] \<noteq> []
   \<and> stitchTiles (\<lambda>t. smallBox) (\<lambda>t. True) [] innerBox TerrainRGB ''token'' []
       = (Inl (Error ''No tiles provided''), [])
   \<and> fst (stitchTiles (\<lambda>t. smallBox) (\<lambda>t. True) [someTile] innerBox TerrainRGB ''token'' [])
       = Inr \<lparr> canvasWidth = 256, canvasHeight = 256, hasImageData = True \<rparr>"
  using stitchTiles_empty_fails
          [of "\<lambda>t. smallBox" "\<lambda>t. True" innerBox TerrainRGB "''token''" "[]" "[someTile]"]
  by (simp add: stitch_one_tile)

text \<open>
  C10. \<open>createHeightmapFromTerrainRGB\<close> writes, for every pixel, the affine value
  \<open>-10000 + (R*65536 + G*256 + B) * 0.1\<close> that the decoder of \<open>tileUtils\<close> returns, with no
  cap at 8000. For the pixel \<open>R = G = B = 255\<close> that is 1667721.5, above 8000, while the
  decoder of the filter pipeline gives 8000 for the same pixel.
\<close>

theorem createHeightmap_uncapped:
  "(readable imageData (width * height) \<longrightarrow>
      (\<exists>heightmap.
         createHeightmapFromTerrainRGB imageData width height = Some heightmap
         \<and> length heightmap = width * height
         \<and> (\<forall>i < width * height.
               heightmap ! i = -10000 + (channel imageData (i * 4) * 65536
                                           + channel imageData (i * 4 + 1) * 256
                                           + channel imageData (i * 4 + 2)) * 0.1)))
   \<and> createHeightmapFromTerrainRGB whiteRaster 1 1 = Some [1667721.5]
   \<and> (8000::real) < 1667721.5
   \<and> applyNoFilter whiteRaster 1 1 = Some [8000]
   \<and> tileUtils_terrainRGBToHeight 255 255 255 = 1667721.5
   \<and> terrainRGBToHeight 255 255 255 = 8000"
proof -
  have "createHeightmapFromTerrainRGB whiteRaster 1 1 = Some [1667721.5]"
    by (simp add: createHeightmapFromTerrainRGB_def readable_def whiteRaster_def channel_def
          tileUtils_terrainRGBToHeight_def)
  moreover have "applyNoFilter whiteRaster 1 1 = Some [8000]"
    by (simp add: applyNoFilter_def decodeHeights_def readable_def whiteRaster_def channel_def
          terrainRGBToHeight_def ABSOLUTE_MAX_HEIGHT_def)
  moreover have "tileUtils_terrainRGBToHeight 255 255 255 = 1667721.5"
    by (simp add: tileUtils_terrainRGBToHeight_def)
  moreover have "terrainRGBToHeight 255 255 255 = 8000"
    by (simp add: terrainRGBToHeight_def ABSOLUTE_MAX_HEIGHT_def)
  moreover have "\<exists>heightmap.
         createHeightmapFromTerrainRGB imageData width height = Some heightmap
         \<and> length heightmap = width * height
         \<and> (\<forall>i < width * height.
               heightmap ! i = -10000 + (channel imageData (i * 4) * 65536
                                           + channel imageData (i * 4 + 1) * 256
                                           + channel imageData (i * 4 + 2)) * 0.1)"
    if "readable imageData (width * height)"
    using that
    by (simp add: createHeightmapFromTerrainRGB_def tileUtils_terrainRGBToHeight_def Let_def)
  ultimately show ?thesis by simp
qed

theorem createHeightmap_uncapped_witness:
  "readable whiteRaster (1 * 1)
   \<and> createHeightmapFromTerrainRGB whiteRaster 1 1 = Some [1667721.5]
   \<and> (\<exists>heightmap.
         createHeightmapFromTerrainRGB whiteRaster 1 1 = Some heightmap
         \<and> length heightmap = 1 * 1
         \<and> heightmap ! 0 = -10000 + (channel whiteRaster (0 * 4) * 65536
                                        + channel whiteRaster (0 * 4 + 1) * 256
                                        + channel whiteRaster (0 * 4 + 2)) * 0.1)"
proof -
  have r: "readable whiteRaster (1 * 1)"
    by (simp add: readable_def whiteRaster_def)
  note t = createHeightmap_uncapped [of whiteRaster 1 1]
  from t r obtain heightmap where
    "createHeightmapFromTerrainRGB whiteRaster 1 1 = Some heightmap"
    "length heightmap = 1 * 1"
    "\<forall>i < 1 * 1. heightmap ! i = -10000 + (channel whiteRaster (i * 4) * 65536
                                        + channel whiteRaster (i * 4 + 1) * 256
                                        + channel whiteRaster (i * 4 + 2)) * 0.1"
    by blast
  then have "\<exists>heightmap.
         createHeightmapFromTerrainRGB whiteRaster 1 1 = Some heightmap
         \<and> length heightmap = 1 * 1
         \<and> heightmap ! 0 = -10000 + (channel whiteRaster (0 * 4) * 65536
                                        + channel whiteRaster (0 * 4 + 1) * 256
                                        + channel whiteRaster (0 * 4 + 2)) * 0.1"
    by auto
  with t r show ?thesis by blast
qed

end
